theory Spec2Isabelle
  imports Complex_Main "HOL-Library.Log_Nat"
begin

section \<open>Constants and static tables of \<^verbatim>\<open>overrides/api.py\<close>\<close>

text \<open>
  Python exceptions are values. \<open>Exception msg\<close> is the bare \<^verbatim>\<open>Exception(msg)\<close> the write
  operations raise themselves; the others are the built-in exceptions of the interpreter.
  \<open>TransportError\<close> stands for whatever the inherited \<^verbatim>\<open>_request\<close> raises.
\<close>

datatype error =
    Exception string
  | KeyError
  | IndexError
  | ValueError
  | OverflowError
  | TypeError
  | ZeroDivisionError
  | TransportError

definition MODEL_ADDRESS :: int where "MODEL_ADDRESS = 5323"
definition MODEL_LENGTH :: int where "MODEL_LENGTH = 6"

definition OP_TYPE_GET_SWITCH :: int where "OP_TYPE_GET_SWITCH = 2001"
definition OP_TYPE_SET_SWITCH :: int where "OP_TYPE_SET_SWITCH = 2011"
definition OP_TYPE_GET_REGISTER :: int where "OP_TYPE_GET_REGISTER = 2002"
definition OP_TYPE_SET_REGISTER :: int where "OP_TYPE_SET_REGISTER = 2012"

datatype DataTypes = Register | Coil

fun Operations_Get :: "DataTypes \<Rightarrow> int" where
  "Operations_Get Coil = 2001"
| "Operations_Get Register = 2002"

fun Operations_Set :: "DataTypes \<Rightarrow> int" where
  "Operations_Set Coil = 2011"
| "Operations_Set Register = 2012"

text \<open>
  One entry of \<^verbatim>\<open>REQUESTS\<close>. The \<^verbatim>\<open>"op"\<close> key of the model block is never read
  (\<^verbatim>\<open>get\<close> takes the operation from \<^verbatim>\<open>Operations.Get\<close>), so it is not a field.
\<close>

record read_request =
  req_address :: int
  req_length :: int

definition REQUESTS :: "DataTypes \<Rightarrow> read_request list" where
  "REQUESTS dt = (case dt of
     Coil \<Rightarrow> [\<lparr>req_address = 1, req_length = 41\<rparr>,
              \<lparr>req_address = 83, req_length = 1\<rparr>,
              \<lparr>req_address = 212, req_length = 15\<rparr>]
   | Register \<Rightarrow> [\<lparr>req_address = 11, req_length = 31\<rparr>,
                  \<lparr>req_address = MODEL_ADDRESS, req_length = MODEL_LENGTH\<rparr>])"

text \<open>
  Python floats are IEEE 754 binary64 values. A finite one is modelled by the rational it
  denotes; the two zeros are identified, since no operation below tells them apart
  (\<^verbatim>\<open>int(-0.0)\<close> is 0 and \<^verbatim>\<open>-0.0 == 0.0\<close>).
\<close>

datatype pyfloat = Finite rat | PosInf | NegInf | NaN

text \<open>The raw address space of one poll: \<^verbatim>\<open>state[dt][address]\<close>, a string per address.\<close>

type_synonym raw_state = "DataTypes \<Rightarrow> (int \<rightharpoonup> string)"

text \<open>The values a snapshot holds: decoded ints, floats and booleans, and \<^verbatim>\<open>None\<close>.\<close>

datatype pyval = VInt int | VFloat pyfloat | VBool bool | VNone

type_synonym device_info = "string \<rightharpoonup> pyval"

text \<open>
  One value of \<^verbatim>\<open>MAPPING\<close>. The keys \<^verbatim>\<open>"address"\<close> and \<^verbatim>\<open>"value_fn"\<close> are absent from
  some entries, hence optional. The bounds metadata \<^verbatim>\<open>is_number\<close>, \<^verbatim>\<open>min\<close>, \<^verbatim>\<open>max\<close> and
  \<^verbatim>\<open>step\<close> of the two setpoints is read by no function of the file and is left out.
\<close>

record definition_m =
  data_type :: DataTypes
  type_name :: string
  address :: "int option"
  entity_type :: string
  value_fn :: "(device_info \<Rightarrow> raw_state \<Rightarrow> error + pyval) option"

section \<open>Python built-ins the file relies on\<close>

subsection \<open>Floats: binary64 arithmetic, round to nearest, ties to even\<close>

text \<open>
  \<open>expo q\<close> is the binary exponent of a non-zero rational: the \<open>e\<close> with
  \<open>2\<^sup>e \<le> |q| < 2\<^sup>e\<^sup>+\<^sup>1\<close>, computed on integers.
\<close>

definition expo :: "rat \<Rightarrow> int" where
  "expo q = (if 1 \<le> \<bar>q\<bar> then bitlen \<lfloor>\<bar>q\<bar>\<rfloor> - 1
             else - int (ceillog2 (nat \<lceil>1 / \<bar>q\<bar>\<rceil>)))"

definition round_half_even :: "rat \<Rightarrow> int" where
  "round_half_even x =
     (let f = \<lfloor>x\<rfloor>; d = x - of_int f in
      if d < 1 / 2 then f
      else if 1 / 2 < d then f + 1
      else if even f then f else f + 1)"

text \<open>
  The nearest binary64 value of a rational, the exponent unbounded above: 53 significant
  bits for a normal number, a multiple of \<open>2\<^sup>-\<^sup>1\<^sup>0\<^sup>7\<^sup>4\<close> for a subnormal one. A result of
  magnitude \<open>2\<^sup>1\<^sup>0\<^sup>2\<^sup>4\<close> or more is an overflow, which each operation handles in its own way.
\<close>

definition round_double :: "rat \<Rightarrow> rat" where
  "round_double q =
     (if q = 0 then 0
      else let s = max (expo q - 52) (- 1074)
           in sgn q * of_int (round_half_even (\<bar>q\<bar> / 2 powi s)) * 2 powi s)"

definition overflows :: "rat \<Rightarrow> bool" where
  "overflows r = (2 ^ 1024 \<le> \<bar>r\<bar>)"

text \<open>\<^verbatim>\<open>float(i)\<close> for an int: correctly rounded, \<open>OverflowError\<close> when too large.\<close>

definition py_float_of_int :: "int \<Rightarrow> error + pyfloat" where
  "py_float_of_int i =
     (let r = round_double (of_int i) in
      if overflows r then Inl OverflowError else Inr (Finite r))"

text \<open>\<^verbatim>\<open>a * b\<close> on floats: never raises; an overflow gives an infinity.\<close>

fun py_float_mul :: "pyfloat \<Rightarrow> pyfloat \<Rightarrow> pyfloat" where
  "py_float_mul (Finite a) (Finite b) =
     (let r = round_double (a * b) in
      if overflows r then (if 0 < r then PosInf else NegInf) else Finite r)"
| "py_float_mul NaN _ = NaN"
| "py_float_mul _ NaN = NaN"
| "py_float_mul (Finite a) PosInf = (if a = 0 then NaN else if 0 < a then PosInf else NegInf)"
| "py_float_mul (Finite a) NegInf = (if a = 0 then NaN else if 0 < a then NegInf else PosInf)"
| "py_float_mul PosInf (Finite b) = (if b = 0 then NaN else if 0 < b then PosInf else NegInf)"
| "py_float_mul NegInf (Finite b) = (if b = 0 then NaN else if 0 < b then NegInf else PosInf)"
| "py_float_mul PosInf PosInf = PosInf"
| "py_float_mul PosInf NegInf = NegInf"
| "py_float_mul NegInf PosInf = NegInf"
| "py_float_mul NegInf NegInf = PosInf"

text \<open>\<^verbatim>\<open>a / b\<close> on floats: a zero divisor raises, an overflow gives an infinity.\<close>

fun py_float_div :: "pyfloat \<Rightarrow> pyfloat \<Rightarrow> error + pyfloat" where
  "py_float_div (Finite a) (Finite b) =
     (if b = 0 then Inl ZeroDivisionError
      else let r = round_double (a / b) in
           Inr (if overflows r then (if 0 < r then PosInf else NegInf) else Finite r))"
| "py_float_div NaN (Finite b) = (if b = 0 then Inl ZeroDivisionError else Inr NaN)"
| "py_float_div PosInf (Finite b) =
     (if b = 0 then Inl ZeroDivisionError else Inr (if 0 < b then PosInf else NegInf))"
| "py_float_div NegInf (Finite b) =
     (if b = 0 then Inl ZeroDivisionError else Inr (if 0 < b then NegInf else PosInf))"
| "py_float_div (Finite a) PosInf = Inr (Finite 0)"
| "py_float_div (Finite a) NegInf = Inr (Finite 0)"
| "py_float_div _ _ = Inr NaN"

text \<open>
  \<^verbatim>\<open>a / b\<close> on ints (true division): the correctly rounded quotient; a zero divisor and an
  overflow both raise.
\<close>

definition py_int_truediv :: "int \<Rightarrow> int \<Rightarrow> error + pyfloat" where
  "py_int_truediv a b =
     (if b = 0 then Inl ZeroDivisionError
      else let r = round_double (of_int a / of_int b) in
           if overflows r then Inl OverflowError else Inr (Finite r))"

text \<open>\<^verbatim>\<open>int(x)\<close> on a float truncates towards zero; it raises on a NaN and on an infinity.\<close>

fun py_int_of_float :: "pyfloat \<Rightarrow> error + int" where
  "py_int_of_float (Finite q) = Inr (if 0 \<le> q then \<lfloor>q\<rfloor> else \<lceil>q\<rceil>)"
| "py_int_of_float NaN = Inl ValueError"
| "py_int_of_float PosInf = Inl OverflowError"
| "py_int_of_float NegInf = Inl OverflowError"

text \<open>
  \<^verbatim>\<open>v == x\<close> for a snapshot value \<open>v\<close> and a float \<open>x\<close>: numbers compare by value
  (\<^verbatim>\<open>bool\<close> is a subclass of \<^verbatim>\<open>int\<close>), a NaN equals nothing, \<^verbatim>\<open>None\<close> equals no number.
\<close>

fun py_float_eq :: "pyfloat \<Rightarrow> pyfloat \<Rightarrow> bool" where
  "py_float_eq (Finite a) (Finite b) = (a = b)"
| "py_float_eq PosInf PosInf = True"
| "py_float_eq NegInf NegInf = True"
| "py_float_eq _ _ = False"

fun py_eq_float :: "pyval \<Rightarrow> pyfloat \<Rightarrow> bool" where
  "py_eq_float (VFloat a) x = py_float_eq a x"
| "py_eq_float (VInt i) x = py_float_eq (Finite (of_int i)) x"
| "py_eq_float (VBool b) x = py_float_eq (Finite (if b then 1 else 0)) x"
| "py_eq_float VNone x = False"

subsection \<open>Strings: \<^verbatim>\<open>int(s, base)\<close> and \<^verbatim>\<open>hex(i)\<close>\<close>

text \<open>
  \<^verbatim>\<open>int(s, base)\<close> on a string of code points below 256, as CPython reads it: surrounding
  whitespace (the six ASCII ones, and the next-line and no-break-space characters, which
  the conversion turns into spaces), one optional sign, for base 16 an optional \<^verbatim>\<open>0x\<close> or \<^verbatim>\<open>0X\<close>
  (which one underscore may follow), then at least one digit, single underscores allowed
  between digits. Anything else raises \<open>ValueError\<close>. For base 10 a string of more than
  4300 digits raises too (the interpreter's default conversion limit).
\<close>

definition is_space :: "char \<Rightarrow> bool" where
  "is_space c = (c \<in> set [CHR 0x09, CHR 0x0A, CHR 0x0B, CHR 0x0C, CHR 0x0D, CHR 0x20,
                           CHR 0x85, CHR 0xA0])"

definition digit_value :: "char \<Rightarrow> nat option" where
  "digit_value c =
     (let n = (of_char c :: nat) in
      if 48 \<le> n \<and> n \<le> 57 then Some (n - 48)
      else if 97 \<le> n \<and> n \<le> 122 then Some (n - 87)
      else if 65 \<le> n \<and> n \<le> 90 then Some (n - 55)
      else None)"

text \<open>
  The digit loop: \<open>prev_us\<close> says that the previous character was an underscore, \<open>acc\<close> is
  the value so far and \<open>n\<close> the number of digits read. It stops at the first character that
  is neither a digit of the base nor an underscore; \<open>None\<close> is a misplaced underscore.
\<close>

fun scan_digits :: "nat \<Rightarrow> bool \<Rightarrow> nat \<Rightarrow> nat \<Rightarrow> string \<Rightarrow> (nat \<times> nat \<times> string) option" where
  "scan_digits base prev_us acc n [] = (if prev_us then None else Some (acc, n, []))"
| "scan_digits base prev_us acc n (c # cs) =
     (if c = CHR ''_'' then (if prev_us then None else scan_digits base True acc n cs)
      else case digit_value c of
             None \<Rightarrow> if prev_us then None else Some (acc, n, c # cs)
           | Some d \<Rightarrow>
               if d < base then scan_digits base False (acc * base + d) (Suc n) cs
               else if prev_us then None else Some (acc, n, c # cs))"

fun strip_sign :: "string \<Rightarrow> bool \<times> string" where
  "strip_sign [] = (False, [])"
| "strip_sign (c # cs) =
     (if c = CHR ''+'' then (False, cs)
      else if c = CHR ''-'' then (True, cs)
      else (False, c # cs))"

fun strip_prefix16 :: "string \<Rightarrow> string" where
  "strip_prefix16 (a # b # cs) =
     (if a = CHR ''0'' \<and> (b = CHR ''x'' \<or> b = CHR ''X'')
      then (case cs of [] \<Rightarrow> [] | u # r \<Rightarrow> if u = CHR ''_'' then r else u # r)
      else a # b # cs)"
| "strip_prefix16 cs = cs"

definition py_int_str :: "string \<Rightarrow> nat \<Rightarrow> error + int" where
  "py_int_str s base =
     (let (neg, s2) = strip_sign (dropWhile is_space s);
          s3 = (if base = 16 then strip_prefix16 s2 else s2)
      in case s3 of
           [] \<Rightarrow> Inl ValueError
         | c # _ \<Rightarrow>
             if c = CHR ''_'' then Inl ValueError
             else case scan_digits base False 0 0 s3 of
                    None \<Rightarrow> Inl ValueError
                  | Some (v, n, rest) \<Rightarrow>
                      if n = 0 \<or> dropWhile is_space rest \<noteq> [] then Inl ValueError
                      else if base = 10 \<and> 4300 < n then Inl ValueError
                      else Inr (if neg then - int v else int v))"

text \<open>\<^verbatim>\<open>hex(i)\<close>: \<^verbatim>\<open>0x\<close> and the lowercase digits, no leading zero, a minus sign in front.\<close>

definition hex_char :: "nat \<Rightarrow> char" where
  "hex_char d = ''0123456789abcdef'' ! d"

fun hex_digits :: "nat \<Rightarrow> string" where
  "hex_digits n = (if n < 16 then [hex_char n] else hex_digits (n div 16) @ [hex_char (n mod 16)])"

declare hex_digits.simps [simp del]

definition py_hex :: "int \<Rightarrow> string" where
  "py_hex i = (if i < 0 then ''-0x'' @ hex_digits (nat (- i)) else ''0x'' @ hex_digits (nat i))"

text \<open>\<^verbatim>\<open>int(on)\<close> for the \<^verbatim>\<open>bool | None\<close> argument of \<^verbatim>\<open>turn_switch\<close>.\<close>

fun py_int_of_bool :: "bool option \<Rightarrow> error + int" where
  "py_int_of_bool None = Inl TypeError"
| "py_int_of_bool (Some b) = Inr (if b then 1 else 0)"

section \<open>Value codec\<close>

definition parse_ecoforest_int :: "string \<Rightarrow> error + int" where
  "parse_ecoforest_int value =
     (case py_int_str value 16 of
        Inl e \<Rightarrow> Inl e
      | Inr result \<Rightarrow> Inr (if result \<le> 32768 then result else result - 65536))"

definition parse_ecoforest_bool :: "string \<Rightarrow> error + bool" where
  "parse_ecoforest_bool value =
     (case py_int_str value 10 of
        Inl e \<Rightarrow> Inl e
      | Inr i \<Rightarrow> Inr (i \<noteq> 0))"

definition parse_ecoforest_float :: "string \<Rightarrow> error + pyfloat" where
  "parse_ecoforest_float value =
     (case parse_ecoforest_int value of
        Inl e \<Rightarrow> Inl e
      | Inr i \<Rightarrow> py_int_truediv i 10)"

text \<open>
  \<^verbatim>\<open>convert_to_ecoforest_int\<close>, for a float argument: \<^verbatim>\<open>int(value * 10)\<close>, plus 65536 when
  negative, then the last four characters of \<^verbatim>\<open>"0000" + hex(value)[2:]\<close>.
\<close>

definition convert_to_ecoforest_int :: "pyfloat \<Rightarrow> error + string" where
  "convert_to_ecoforest_int value =
     (case py_int_of_float (py_float_mul value (Finite 10)) of
        Inl e \<Rightarrow> Inl e
      | Inr v \<Rightarrow>
          (let v' = (if v < 0 then v + 65536 else v);
               padded = ''0000'' @ drop 2 (py_hex v')
           in Inr (drop (length padded - 4) padded)))"

section \<open>Model name\<close>

text \<open>
  \<^verbatim>\<open>xs[i]\<close> on a Python list: a negative index counts from the end, and only an index outside
  \<open>[-len, len)\<close> raises \<open>IndexError\<close>.
\<close>

definition py_list_get :: "'a list \<Rightarrow> int \<Rightarrow> error + 'a" where
  "py_list_get xs i =
     (if 0 \<le> i \<and> i < int (length xs) then Inr (xs ! nat i)
      else if - int (length xs) \<le> i \<and> i < 0 then Inr (xs ! nat (int (length xs) + i))
      else Inl IndexError)"

definition model_dictionary :: "string list" where
  "model_dictionary = [''--''] @ map (\<lambda>c. [c]) ''0123456789''
                               @ map (\<lambda>c. [c]) ''ABCDEFGHIJKLMNOPQRSTUVWXYZ''"

fun parse_model_name_loop :: "raw_state \<Rightarrow> int list \<Rightarrow> string \<Rightarrow> error + string" where
  "parse_model_name_loop data [] result = Inr result"
| "parse_model_name_loop data (a # rest) result =
     (case data Register a of
        None \<Rightarrow> Inl KeyError
      | Some raw \<Rightarrow>
          (case parse_ecoforest_int raw of
             Inl e \<Rightarrow> Inl e
           | Inr i \<Rightarrow>
               (case py_list_get model_dictionary i of
                  Inl e \<Rightarrow> Inl e
                | Inr symbol \<Rightarrow> parse_model_name_loop data rest (result @ symbol))))"

definition parse_model_name :: "raw_state \<Rightarrow> error + string" where
  "parse_model_name data =
     parse_model_name_loop data [MODEL_ADDRESS .. MODEL_ADDRESS + MODEL_LENGTH - 1] []"

section \<open>Alarm scan\<close>

definition alarm_registers :: "int list" where
  "alarm_registers =
    [1, 2, 3, 7, 8, 9, 10, 11, 12, 13, 14, 15, 16, 17, 18, 19, 20, 21,
     24, 25, 26, 33, 34, 36, 37, 38, 39, 40, 41,
     212, 213, 214, 215, 216, 217, 218, 219, 220, 221, 222, 223, 224, 225, 226]"

text \<open>
  The \<^verbatim>\<open>for address in alarm_registers\<close> loop of \<^verbatim>\<open>get_alarm\<close>: a missing key raises
  \<open>KeyError\<close>, the string \<^verbatim>\<open>"0"\<close> continues, anything else returns the address.
\<close>

fun get_alarm_loop :: "(int \<rightharpoonup> string) \<Rightarrow> int list \<Rightarrow> error + int" where
  "get_alarm_loop coils [] = Inr 0"
| "get_alarm_loop coils (a # rest) =
     (case coils a of
        None \<Rightarrow> Inl KeyError
      | Some v \<Rightarrow> if v = ''0'' then get_alarm_loop coils rest else Inr a)"

definition get_alarm :: "raw_state \<Rightarrow> error + int" where
  "get_alarm data = get_alarm_loop (data Coil) alarm_registers"

section \<open>The field mapping table\<close>

definition MAPPING :: "(string \<times> definition_m) list" where
  "MAPPING =
    [(''t_dhw'',
        \<lparr>data_type = Register, type_name = ''float'', address = Some 11,
         entity_type = ''temperature'', value_fn = None\<rparr>),
     (''t_outdoor'',
        \<lparr>data_type = Register, type_name = ''float'', address = Some 20,
         entity_type = ''temperature'', value_fn = None\<rparr>),
     (''button_reset_alarms'',
        \<lparr>data_type = Coil, type_name = ''boolean'', address = Some 83,
         entity_type = ''button'', value_fn = None\<rparr>),
     (''switch_dhw'',
        \<lparr>data_type = Coil, type_name = ''boolean'', address = Some 213,
         entity_type = ''switch'', value_fn = None\<rparr>),
     (''number_dhw_setpoint'',
        \<lparr>data_type = Register, type_name = ''float'', address = Some 40,
         entity_type = ''temperature'', value_fn = None\<rparr>),
     (''number_dhw_dt_start'',
        \<lparr>data_type = Register, type_name = ''float'', address = Some 41,
         entity_type = ''temperature'', value_fn = None\<rparr>),
     (''alarm'',
        \<lparr>data_type = Coil, type_name = ''custom'', address = None,
         entity_type = ''enum'',
         value_fn = Some (\<lambda>data raw_data.
           case get_alarm raw_data of Inl e \<Rightarrow> Inl e | Inr a \<Rightarrow> Inr (VInt a))\<rparr>)]"

section \<open>Transport\<close>

text \<open>
  The \<^verbatim>\<open>data\<close> dictionary handed to the inherited \<^verbatim>\<open>_request\<close>. A write adds one more
  entry whose key and value are the same object: \<^verbatim>\<open>int(on)\<close> or the encoded string.
\<close>

datatype wire = WInt int | WStr string

record request =
  idOperacion :: int
  dir :: int
  num :: int
  extra :: "wire option"

text \<open>
  \<^verbatim>\<open>_request\<close> is not code of this file: it is a parameter, a function from the request and the
  device's state to the parsed response (or an exception) and the device's next state. The
  world also records every request made, in order.
\<close>

type_synonym 'd transport = "request \<Rightarrow> 'd \<Rightarrow> (error + string list) \<times> 'd"

record 'd world =
  device :: 'd
  calls :: "request list"

definition request_send :: "'d transport \<Rightarrow> request \<Rightarrow> 'd world \<Rightarrow> (error + string list) \<times> 'd world" where
  "request_send tr data w =
     (case tr data (device w) of
        (r, d') \<Rightarrow> (r, \<lparr>device = d', calls = calls w @ [data]\<rparr>))"

section \<open>Polling\<close>

text \<open>
  The loop of \<^verbatim>\<open>_load_data\<close>: \<^verbatim>\<open>result[i] = response[index]\<close> for \<open>i\<close> over the range, the
  index running along; a response that is too short raises \<open>IndexError\<close>.
\<close>

fun load_data_loop :: "int list \<Rightarrow> string list \<Rightarrow> (int \<rightharpoonup> string) \<Rightarrow> error + (int \<rightharpoonup> string)" where
  "load_data_loop [] response result = Inr result"
| "load_data_loop (i # rest) [] result = Inl IndexError"
| "load_data_loop (i # rest) (x # response) result = load_data_loop rest response (result(i \<mapsto> x))"

definition load_data ::
  "'d transport \<Rightarrow> int \<Rightarrow> int \<Rightarrow> int \<Rightarrow> 'd world \<Rightarrow> (error + (int \<rightharpoonup> string)) \<times> 'd world" where
  "load_data tr addr len op_type w =
     (case request_send tr \<lparr>idOperacion = op_type, dir = addr, num = len, extra = None\<rparr> w of
        (Inl e, w') \<Rightarrow> (Inl e, w')
      | (Inr response, w') \<Rightarrow> (load_data_loop [addr .. addr + len - 1] response Map.empty, w'))"

text \<open>The two nested loops at the head of \<^verbatim>\<open>get\<close>; \<^verbatim>\<open>dict.update\<close> is \<open>++\<close>.\<close>

fun load_requests ::
  "'d transport \<Rightarrow> DataTypes \<Rightarrow> read_request list \<Rightarrow> raw_state \<Rightarrow> 'd world
     \<Rightarrow> (error + raw_state) \<times> 'd world" where
  "load_requests tr dt [] state w = (Inr state, w)"
| "load_requests tr dt (r # rs) state w =
     (case load_data tr (req_address r) (req_length r) (Operations_Get dt) w of
        (Inl e, w') \<Rightarrow> (Inl e, w')
      | (Inr result, w') \<Rightarrow> load_requests tr dt rs (state(dt := state dt ++ result)) w')"

fun load_all ::
  "'d transport \<Rightarrow> DataTypes list \<Rightarrow> raw_state \<Rightarrow> 'd world \<Rightarrow> (error + raw_state) \<times> 'd world" where
  "load_all tr [] state w = (Inr state, w)"
| "load_all tr (dt # dts) state w =
     (case load_requests tr dt (REQUESTS dt) state w of
        (Inl e, w') \<Rightarrow> (Inl e, w')
      | (Inr state', w') \<Rightarrow> load_all tr dts state' w')"

text \<open>\<^verbatim>\<open>state[definition["data_type"]][definition["address"]]\<close>: either lookup may fail.\<close>

definition raw_value :: "raw_state \<Rightarrow> definition_m \<Rightarrow> error + string" where
  "raw_value state d =
     (case address d of
        None \<Rightarrow> Inl KeyError
      | Some a \<Rightarrow> (case state (data_type d) a of None \<Rightarrow> Inl KeyError | Some v \<Rightarrow> Inr v))"

text \<open>The body of the \<^verbatim>\<open>match\<close>: \<open>Inr None\<close> is \<^verbatim>\<open>continue\<close>, \<open>Inr (Some v)\<close> a decoded value.\<close>

definition decode_field :: "raw_state \<Rightarrow> definition_m \<Rightarrow> error + pyval option" where
  "decode_field state d =
     (if type_name d = ''int'' then
        (case raw_value state d of Inl e \<Rightarrow> Inl e | Inr raw \<Rightarrow>
           (case parse_ecoforest_int raw of Inl e \<Rightarrow> Inl e | Inr i \<Rightarrow> Inr (Some (VInt i))))
      else if type_name d = ''float'' then
        (case raw_value state d of Inl e \<Rightarrow> Inl e | Inr raw \<Rightarrow>
           (case parse_ecoforest_float raw of Inl e \<Rightarrow> Inl e | Inr x \<Rightarrow> Inr (Some (VFloat x))))
      else if type_name d = ''boolean'' then
        (case raw_value state d of Inl e \<Rightarrow> Inl e | Inr raw \<Rightarrow>
           (case parse_ecoforest_bool raw of Inl e \<Rightarrow> Inl e | Inr b \<Rightarrow> Inr (Some (VBool b))))
      else Inr None)"

fun decode_loop :: "(string \<times> definition_m) list \<Rightarrow> raw_state \<Rightarrow> device_info \<Rightarrow> error + device_info" where
  "decode_loop [] state info = Inr info"
| "decode_loop ((name, d) # rest) state info =
     (case decode_field state d of
        Inl e \<Rightarrow> Inl e
      | Inr None \<Rightarrow> decode_loop rest state info
      | Inr (Some value) \<Rightarrow> decode_loop rest state (info(name \<mapsto> value)))"

text \<open>The float literal \<^verbatim>\<open>-999.9\<close>: the binary64 value nearest to it.\<close>

definition sentinel :: pyfloat where
  "sentinel = Finite (round_double (- 9999 / 10))"

text \<open>
  The second loop of \<^verbatim>\<open>get\<close>: the sentinel of a temperature becomes \<^verbatim>\<open>None\<close>, then a custom
  field is computed by its \<^verbatim>\<open>value_fn\<close>. Both dictionary reads can raise \<open>KeyError\<close>.
\<close>

definition substitute_sentinel :: "string \<Rightarrow> definition_m \<Rightarrow> device_info \<Rightarrow> error + device_info" where
  "substitute_sentinel name d info =
     (if entity_type d = ''temperature''
      then (case info name of
              None \<Rightarrow> Inl KeyError
            | Some v \<Rightarrow> Inr (if py_eq_float v sentinel then info(name \<mapsto> VNone) else info))
      else Inr info)"

fun custom_loop :: "(string \<times> definition_m) list \<Rightarrow> raw_state \<Rightarrow> device_info \<Rightarrow> error + device_info" where
  "custom_loop [] state info = Inr info"
| "custom_loop ((name, d) # rest) state info =
     (case substitute_sentinel name d info of
        Inl e \<Rightarrow> Inl e
      | Inr info' \<Rightarrow>
          if type_name d \<noteq> ''custom'' then custom_loop rest state info'
          else (case value_fn d of
                  None \<Rightarrow> Inl KeyError
                | Some f \<Rightarrow>
                    (case f info' state of
                       Inl e \<Rightarrow> Inl e
                     | Inr v \<Rightarrow> custom_loop rest state (info'(name \<mapsto> v)))))"

text \<open>
  What \<^verbatim>\<open>get\<close> builds from a loaded address space: the two arguments it hands to
  \<^verbatim>\<open>EcoGeoDevice.build\<close> (which is not code of this file), the model name and the snapshot.
\<close>

definition build_snapshot :: "raw_state \<Rightarrow> error + string \<times> device_info" where
  "build_snapshot state =
     (case decode_loop MAPPING state Map.empty of
        Inl e \<Rightarrow> Inl e
      | Inr info \<Rightarrow>
          (case custom_loop MAPPING state info of
             Inl e \<Rightarrow> Inl e
           | Inr info' \<Rightarrow>
               (case parse_model_name state of
                  Inl e \<Rightarrow> Inl e
                | Inr model \<Rightarrow> Inr (model, info'))))"

definition get :: "'d transport \<Rightarrow> 'd world \<Rightarrow> (error + string \<times> device_info) \<times> 'd world" where
  "get tr w =
     (case load_all tr [Coil, Register] (\<lambda>dt. Map.empty) w of
        (Inl e, w') \<Rightarrow> (Inl e, w')
      | (Inr state, w') \<Rightarrow> (build_snapshot state, w'))"

section \<open>Writes\<close>

text \<open>\<^verbatim>\<open>MAPPING[name]["address"]\<close>: the name or the key \<^verbatim>\<open>"address"\<close> may be missing.\<close>

definition mapping_address :: "string \<Rightarrow> error + int" where
  "mapping_address name =
     (case map_of MAPPING name of
        None \<Rightarrow> Inl KeyError
      | Some d \<Rightarrow> (case address d of None \<Rightarrow> Inl KeyError | Some a \<Rightarrow> Inr a))"

text \<open>
  The dictionary display is evaluated left to right: the address lookup comes before
  \<^verbatim>\<open>int(on)\<close>, and both before the request is sent.
\<close>

definition turn_switch ::
  "'d transport \<Rightarrow> string \<Rightarrow> bool option \<Rightarrow> 'd world \<Rightarrow> (error + string \<times> device_info) \<times> 'd world" where
  "turn_switch tr name on w =
     (if name \<notin> set (map fst MAPPING) then (Inl (Exception ''unknown switch''), w)
      else case mapping_address name of
             Inl e \<Rightarrow> (Inl e, w)
           | Inr a \<Rightarrow>
               (case py_int_of_bool on of
                  Inl e \<Rightarrow> (Inl e, w)
                | Inr b \<Rightarrow>
                    (case request_send tr
                            \<lparr>idOperacion = OP_TYPE_SET_SWITCH, dir = a, num = 1,
                             extra = Some (WInt b)\<rparr> w of
                       (Inl e, w') \<Rightarrow> (Inl e, w')
                     | (Inr _, w') \<Rightarrow> get tr w')))"

definition set_numeric_value ::
  "'d transport \<Rightarrow> string \<Rightarrow> pyfloat \<Rightarrow> 'd world \<Rightarrow> (error + string \<times> device_info) \<times> 'd world" where
  "set_numeric_value tr name value w =
     (if name \<notin> set (map fst MAPPING) then (Inl (Exception ''unknown register''), w)
      else case convert_to_ecoforest_int value of
             Inl e \<Rightarrow> (Inl e, w)
           | Inr converted_value \<Rightarrow>
               (case mapping_address name of
                  Inl e \<Rightarrow> (Inl e, w)
                | Inr a \<Rightarrow>
                    (case request_send tr
                            \<lparr>idOperacion = OP_TYPE_SET_REGISTER, dir = a, num = 1,
                             extra = Some (WStr converted_value)\<rparr> w of
                       (Inl e, w') \<Rightarrow> (Inl e, w')
                     | (Inr _, w') \<Rightarrow> get tr w')))"

section \<open>Notions used to state the properties\<close>

text \<open>An address is covered when one of the curated read requests of its data type spans it.\<close>

definition covered :: "DataTypes \<Rightarrow> int \<Rightarrow> bool" where
  "covered dt a = (\<exists>r \<in> set (REQUESTS dt). req_address r \<le> a \<and> a < req_address r + req_length r)"

text \<open>A coil space with the alarms 3 and 18 raised and every other coil at rest.\<close>

definition coils_3_18 :: raw_state where
  "coils_3_18 = (\<lambda>dt a. if a = 3 \<or> a = 18 then Some ''1'' else Some ''0'')"

text \<open>
  The 37-symbol alphabet as the specification words it: index 0 is the placeholder, 1 to 10
  are the digits, 11 to 36 the capital letters.
\<close>

definition alphabet_symbol :: "int \<Rightarrow> string" where
  "alphabet_symbol i =
     (if i = 0 then ''--''
      else if i \<le> 10 then [char_of (48 + nat (i - 1))]
      else [char_of (65 + nat (i - 11))])"


text \<open>The alphabet entry a Python index selects, a negative index counting from the end.\<close>

definition wrapped_symbol :: "int \<Rightarrow> string" where
  "wrapped_symbol i = model_dictionary ! nat (if i < 0 then 37 + i else i)"

text \<open>A transport that refuses every request, and a world in which nothing was sent yet.\<close>

definition failing_transport :: "unit transport" where
  "failing_transport = (\<lambda>req d. (Inl TransportError, d))"

definition world0 :: "unit world" where
  "world0 = \<lparr>device = (), calls = []\<rparr>"

text \<open>A hexadecimal digit, in either case.\<close>

definition is_hex :: "char \<Rightarrow> bool" where
  "is_hex c = (\<exists>d. digit_value c = Some d \<and> d < 16)"

text \<open>The four lowest hexadecimal digits of a number, in lowercase.\<close>

definition hex4 :: "nat \<Rightarrow> string" where
  "hex4 u = [hex_char (u div 4096 mod 16), hex_char (u div 256 mod 16),
             hex_char (u div 16 mod 16), hex_char (u mod 16)]"

text \<open>
  An address space whose register 11 holds the raw value of -9999 tenths, register 20 that of
  -9998 tenths, and every other address zero.
\<close>

definition sentinel_state :: raw_state where
  "sentinel_state = (\<lambda>dt a. if dt = Coil then Some ''0''
                              else if a = 11 then Some ''d8f1''
                              else if a = 20 then Some ''d8f2'' else Some ''0000'')"

section \<open>Properties of the alarm scan\<close>

lemma get_alarm_loop_all_zero:
  "(\<And>a. a \<in> set as \<Longrightarrow> coils a = Some ''0'') \<Longrightarrow> get_alarm_loop coils as = Inr 0"
  by (induction as) simp_all

lemma get_alarm_loop_first:
  assumes "i < length as"
    and "coils (as ! i) = Some v" and "v \<noteq> ''0''"
    and "\<And>j. j < i \<Longrightarrow> coils (as ! j) = Some ''0''"
  shows "get_alarm_loop coils as = Inr (as ! i)"
  using assms
proof (induction as arbitrary: i)
  case Nil
  then show ?case by simp
next
  case (Cons a as)
  show ?case
  proof (cases i)
    case 0
    with Cons.prems show ?thesis by simp
  next
    case (Suc k)
    have head: "coils a = Some ''0''"
      using Cons.prems(4) [of 0] Suc by simp
    have "get_alarm_loop coils as = Inr (as ! k)"
    proof (rule Cons.IH)
      show "k < length as" using Cons.prems(1) Suc by simp
      show "coils (as ! k) = Some v" using Cons.prems(2) Suc by simp
      show "v \<noteq> ''0''" by (rule Cons.prems(3))
      fix j assume "j < k"
      then show "coils (as ! j) = Some ''0''"
        using Cons.prems(4) [of "Suc j"] Suc by simp
    qed
    with head Suc show ?thesis by simp
  qed
qed

text \<open>
  C4. When the coil space holds every address of the alarm table, the scan returns the
  table entry at the least position whose raw string is not \<^verbatim>\<open>"0"\<close> (whatever that string
  is), and 0 when every table address holds \<^verbatim>\<open>"0"\<close>.
\<close>

theorem get_alarm_first_active:
  assumes "set alarm_registers \<subseteq> dom (data Coil)"
  shows "((\<forall>a \<in> set alarm_registers. data Coil a = Some ''0'') \<longrightarrow> get_alarm data = Inr 0)
       \<and> (\<forall>i < length alarm_registers.
            data Coil (alarm_registers ! i) \<noteq> Some ''0''
            \<and> (\<forall>j < i. data Coil (alarm_registers ! j) = Some ''0'')
            \<longrightarrow> get_alarm data = Inr (alarm_registers ! i))"
proof (intro conjI impI allI)
  assume "\<forall>a \<in> set alarm_registers. data Coil a = Some ''0''"
  then show "get_alarm data = Inr 0"
    unfolding get_alarm_def by (intro get_alarm_loop_all_zero) blast
next
  fix i
  assume i: "i < length alarm_registers"
    and act: "data Coil (alarm_registers ! i) \<noteq> Some ''0''
              \<and> (\<forall>j < i. data Coil (alarm_registers ! j) = Some ''0'')"
  from i assms obtain v where v: "data Coil (alarm_registers ! i) = Some v"
    using nth_mem by blast
  with act have "v \<noteq> ''0''" by auto
  with i v act show "get_alarm data = Inr (alarm_registers ! i)"
    unfolding get_alarm_def by (intro get_alarm_loop_first [where v = v]) auto
qed

theorem get_alarm_first_active_witness:
  "set alarm_registers \<subseteq> dom (coils_3_18 Coil)
   \<and> get_alarm coils_3_18 = Inr 3
   \<and> get_alarm (\<lambda>dt a. Some ''0'') = Inr 0"
proof -
  have h: "set alarm_registers \<subseteq> dom (coils_3_18 Coil)"
    by (auto simp: coils_3_18_def)
  have i: "(2::nat) < length alarm_registers" and a: "alarm_registers ! 2 = 3"
    by (simp_all add: alarm_registers_def)
  have act: "coils_3_18 Coil (alarm_registers ! 2) \<noteq> Some ''0''"
    by (simp add: a coils_3_18_def)
  have before: "\<forall>j<2. coils_3_18 Coil (alarm_registers ! j) = Some ''0''"
    by (simp add: alarm_registers_def coils_3_18_def less_Suc_eq numeral_2_eq_2)
  have first: "get_alarm coils_3_18 = Inr 3"
    using get_alarm_first_active [of coils_3_18, OF h, THEN conjunct2, rule_format, of 2] i act before a
    by simp
  have h0: "set alarm_registers \<subseteq> dom ((\<lambda>dt a. Some ''0'') Coil)"
    by auto
  have zero: "get_alarm (\<lambda>dt a. Some ''0'') = Inr 0"
    using get_alarm_first_active [of "\<lambda>dt a. Some ''0''", OF h0, THEN conjunct1] by simp
  from h first zero show ?thesis by simp
qed

section \<open>Coverage of the static configuration\<close>

lemma load_data_loop_dom:
  "load_data_loop as response m = Inr m' \<Longrightarrow> dom m' = dom m \<union> set as"
  by (induction as response m rule: load_data_loop.induct) auto

lemma load_data_dom:
  assumes "load_data tr a l op w = (Inr m, w')"
  shows "dom m = {a ..< a + l}"
proof -
  from assms obtain response where "load_data_loop [a .. a + l - 1] response Map.empty = Inr m"
    by (auto simp: load_data_def split: prod.splits sum.splits)
  from load_data_loop_dom [OF this] show ?thesis by auto
qed

lemma load_requests_dom:
  "load_requests tr dt rs st w = (Inr st', w') \<Longrightarrow>
     dom (st' dt) = dom (st dt) \<union> (\<Union>r \<in> set rs. {req_address r ..< req_address r + req_length r})
     \<and> (\<forall>dt'. dt' \<noteq> dt \<longrightarrow> st' dt' = st dt')"
proof (induction rs arbitrary: st w)
  case Nil
  then show ?case by simp
next
  case (Cons r rs)
  from Cons.prems obtain m w1 where
    ld: "load_data tr (req_address r) (req_length r) (Operations_Get dt) w = (Inr m, w1)"
    and rest: "load_requests tr dt rs (st(dt := st dt ++ m)) w1 = (Inr st', w')"
    by (auto split: prod.splits sum.splits)
  from load_data_dom [OF ld] Cons.IH [OF rest] show ?case by auto
qed

lemma load_all_dom:
  "load_all tr dts st w = (Inr st', w') \<Longrightarrow>
     dom (st' dt) = dom (st dt) \<union> (if dt \<in> set dts then {a. covered dt a} else {})"
proof (induction dts arbitrary: st w)
  case Nil
  then show ?case by simp
next
  case (Cons x dts)
  from Cons.prems obtain st1 w1 where
    lr: "load_requests tr x (REQUESTS x) st w = (Inr st1, w1)"
    and rest: "load_all tr dts st1 w1 = (Inr st', w')"
    by (auto split: prod.splits sum.splits)
  have cov: "(\<Union>r \<in> set (REQUESTS x). {req_address r ..< req_address r + req_length r}) = {a. covered x a}"
    by (auto simp: covered_def)
  from load_requests_dom [OF lr] Cons.IH [OF rest, of ] cov show ?case
    by (cases "dt = x") auto
qed

lemma covered_Coil: "covered Coil a \<longleftrightarrow> (1 \<le> a \<and> a \<le> 41) \<or> a = 83 \<or> (212 \<le> a \<and> a \<le> 226)"
  by (auto simp: covered_def REQUESTS_def)

lemma covered_Register: "covered Register a \<longleftrightarrow> (11 \<le> a \<and> a \<le> 41) \<or> (5323 \<le> a \<and> a \<le> 5328)"
  by (auto simp: covered_def REQUESTS_def MODEL_ADDRESS_def MODEL_LENGTH_def)

lemma mapping_covered:
  "\<forall>(name, d) \<in> set MAPPING. \<forall>a. address d = Some a \<longrightarrow> covered (data_type d) a"
  by (simp add: MAPPING_def covered_Coil covered_Register)

lemma alarm_covered: "\<forall>a \<in> set alarm_registers. covered Coil a"
  by (simp add: alarm_registers_def covered_Coil)

lemma loaded_state_resolves:
  assumes ld: "load_all tr [Coil, Register] (\<lambda>dt. Map.empty) w = (Inr state, w')"
  shows "(\<forall>(name, d) \<in> set MAPPING. \<forall>a. address d = Some a \<longrightarrow> a \<in> dom (state (data_type d)))
         \<and> set alarm_registers \<subseteq> dom (state Coil)"
proof -
  have dom_eq: "dom (state dt) = {a. covered dt a}" for dt
    using load_all_dom [OF ld, of dt] by (cases dt) auto
  show ?thesis
    using mapping_covered alarm_covered unfolding dom_eq by blast
qed

text \<open>
  C9. The curated read ranges are coils 1-41, 83 and 212-226 and registers 11-41 and
  5323-5328; every address of the field mapping table lies in the ranges of its data type,
  and every address of the alarm table in the coil ranges. Hence the address space of a
  poll whose reads all succeed holds every mapped address and every alarm address.
\<close>

theorem static_configuration_covered:
  "(\<forall>a. covered Coil a \<longleftrightarrow> (1 \<le> a \<and> a \<le> 41) \<or> a = 83 \<or> (212 \<le> a \<and> a \<le> 226))
   \<and> (\<forall>a. covered Register a \<longleftrightarrow> (11 \<le> a \<and> a \<le> 41) \<or> (5323 \<le> a \<and> a \<le> 5328))
   \<and> (\<forall>(name, d) \<in> set MAPPING. \<forall>a. address d = Some a \<longrightarrow> covered (data_type d) a)
   \<and> (\<forall>a \<in> set alarm_registers. covered Coil a)
   \<and> (\<forall>tr w state w'. load_all tr [Coil, Register] (\<lambda>dt. Map.empty) w = (Inr state, (w' :: 'd world)) \<longrightarrow>
         (\<forall>(name, d) \<in> set MAPPING. \<forall>a. address d = Some a \<longrightarrow> a \<in> dom (state (data_type d)))
         \<and> set alarm_registers \<subseteq> dom (state Coil))"
proof -
  have "\<forall>tr w state w'. load_all tr [Coil, Register] (\<lambda>dt. Map.empty) w = (Inr state, (w' :: 'd world)) \<longrightarrow>
         (\<forall>(name, d) \<in> set MAPPING. \<forall>a. address d = Some a \<longrightarrow> a \<in> dom (state (data_type d)))
         \<and> set alarm_registers \<subseteq> dom (state Coil)"
    using loaded_state_resolves by blast
  moreover have "\<forall>a. covered Coil a \<longleftrightarrow> (1 \<le> a \<and> a \<le> 41) \<or> a = 83 \<or> (212 \<le> a \<and> a \<le> 226)"
    by (simp add: covered_Coil)
  moreover have "\<forall>a. covered Register a \<longleftrightarrow> (11 \<le> a \<and> a \<le> 41) \<or> (5323 \<le> a \<and> a \<le> 5328)"
    by (simp add: covered_Register)
  ultimately show ?thesis
    using mapping_covered alarm_covered by (intro conjI) assumption+
qed

theorem static_configuration_covered_witness:
  "covered Register 11 \<and> covered Coil 83 \<and> covered Coil 226 \<and> \<not> covered Coil 42"
proof -
  note c = static_configuration_covered [THEN conjunct1, rule_format]
  note r = static_configuration_covered [THEN conjunct2, THEN conjunct1, rule_format]
  show ?thesis by (simp add: c r)
qed

section \<open>Facts about the built-ins\<close>

lemma hex_digits_small: "n < 16 \<Longrightarrow> hex_digits n = [hex_char n]"
  by (subst hex_digits.simps) simp

subsection \<open>Parsing hexadecimal digits\<close>

lemma is_hex_plain:
  assumes "is_hex c"
  shows "c \<noteq> CHR ''_''" "c \<noteq> CHR ''+''" "c \<noteq> CHR ''-''" "c \<noteq> CHR ''x''" "c \<noteq> CHR ''X''"
    "\<not> is_space c"
  using assms by (auto simp: is_hex_def digit_value_def is_space_def)

lemma scan_digits_hex:
  assumes "\<forall>c \<in> set s. is_hex c"
  shows "scan_digits 16 False acc n s
           = Some (foldl (\<lambda>a c. a * 16 + (case digit_value c of None \<Rightarrow> 0 | Some d \<Rightarrow> d)) acc s,
                   n + length s, [])"
  using assms
proof (induction s arbitrary: acc n)
  case Nil
  then show ?case by simp
next
  case (Cons c s)
  from Cons.prems have c: "is_hex c" and rest: "\<forall>c \<in> set s. is_hex c"
    by simp_all
  from c obtain d where d: "digit_value c = Some d" "d < 16"
    unfolding is_hex_def by blast
  show ?case
    using is_hex_plain(1) [OF c] d Cons.IH [OF rest] by simp
qed

lemma strip_prefix16_hex:
  assumes "\<forall>c \<in> set s. is_hex c"
  shows "strip_prefix16 s = s"
proof (cases s rule: strip_prefix16.cases)
  case (1 a b cs)
  with assms have "is_hex b" by simp
  from is_hex_plain(4,5) [OF this] 1 show ?thesis by simp
qed simp_all

lemma py_int_str_hex:
  assumes "\<forall>x \<in> set (c # cs). is_hex x"
  shows "py_int_str (c # cs) 16
           = Inr (int (foldl (\<lambda>a c. a * 16 + (case digit_value c of None \<Rightarrow> 0 | Some d \<Rightarrow> d))
                         0 (c # cs)))"
proof -
  from assms have c: "is_hex c" by simp
  have sp: "dropWhile is_space (c # cs) = c # cs"
    using is_hex_plain(6) [OF c] by simp
  have sg: "strip_sign (c # cs) = (False, c # cs)"
    using is_hex_plain(2,3) [OF c] by simp
  have us: "c \<noteq> CHR ''_''"
    by (rule is_hex_plain(1) [OF c])
  note pre = strip_prefix16_hex [OF assms]
  note sc = scan_digits_hex [OF assms, of 0 0]
  show ?thesis
    unfolding py_int_str_def sp sg
    using us by (simp add: pre sc del: scan_digits.simps foldl_Cons)
qed

lemma py_int_str_four_hex:
  assumes "digit_value a = Some da" "da < 16" "digit_value b = Some db" "db < 16"
    and "digit_value c = Some dc" "dc < 16" "digit_value d = Some dd" "dd < 16"
  shows "py_int_str [a, b, c, d] 16 = Inr (int (4096 * da + 256 * db + 16 * dc + dd))"
proof -
  have "\<forall>x \<in> set [a, b, c, d]. is_hex x"
    using assms by (auto simp: is_hex_def)
  from py_int_str_hex [OF this] assms show ?thesis
    by simp
qed

subsection \<open>Formatting hexadecimal digits\<close>





lemma digit_value_hex_char_list:
  "list_all (\<lambda>d. digit_value (hex_char d) = Some d) [0 ..< 16]"
  by code_simp

lemma digit_value_hex_char: "d < 16 \<Longrightarrow> digit_value (hex_char d) = Some d"
  using digit_value_hex_char_list unfolding list_all_iff by simp

lemma py_int_str_hex4:
  assumes "u < 65536"
  shows "py_int_str (hex4 u) 16 = Inr (int u)"
proof -
  have p: "py_int_str (hex4 u) 16
          = Inr (int (4096 * (u div 4096 mod 16) + 256 * (u div 256 mod 16)
                      + 16 * (u div 16 mod 16) + u mod 16))"
    unfolding hex4_def by (rule py_int_str_four_hex) (simp_all add: digit_value_hex_char)
  have eq: "4096 * (u div 4096 mod 16) + 256 * (u div 256 mod 16)
                   + 16 * (u div 16 mod 16) + u mod 16 = u"
  proof -
    have "u mod 256 = 16 * (u div 16 mod 16) + u mod 16"
      using mod_mult2_eq [of u 16 16] by simp
    moreover have "u mod 4096 = 256 * (u div 256 mod 16) + u mod 256"
      using mod_mult2_eq [of u 256 16] by simp
    moreover have "u mod 65536 = 4096 * (u div 4096 mod 16) + u mod 4096"
      using mod_mult2_eq [of u 4096 16] by simp
    moreover have "u mod 65536 = u"
      using assms by simp
    ultimately show ?thesis by linarith
  qed
  show ?thesis by (simp only: p eq)
qed

subsection \<open>Rounding to the nearest integer\<close>

lemma round_half_even_cases:
  fixes x :: rat
  shows "x - of_int \<lfloor>x\<rfloor> < 1 / 2 \<Longrightarrow> round_half_even x = \<lfloor>x\<rfloor>"
    and "1 / 2 < x - of_int \<lfloor>x\<rfloor> \<Longrightarrow> round_half_even x = \<lfloor>x\<rfloor> + 1"
    and "x - of_int \<lfloor>x\<rfloor> = 1 / 2 \<Longrightarrow> even \<lfloor>x\<rfloor> \<Longrightarrow> round_half_even x = \<lfloor>x\<rfloor>"
    and "x - of_int \<lfloor>x\<rfloor> = 1 / 2 \<Longrightarrow> odd \<lfloor>x\<rfloor> \<Longrightarrow> round_half_even x = \<lfloor>x\<rfloor> + 1"
  by (simp_all add: round_half_even_def Let_def)

lemma round_half_even_close: "\<bar>of_int (round_half_even x) - x\<bar> \<le> 1 / 2"
proof -
  have fl: "of_int \<lfloor>x\<rfloor> \<le> x" "x < of_int \<lfloor>x\<rfloor> + 1"
    by linarith+
  consider "x - of_int \<lfloor>x\<rfloor> < 1 / 2" | "1 / 2 < x - of_int \<lfloor>x\<rfloor>"
    | "x - of_int \<lfloor>x\<rfloor> = 1 / 2" "even \<lfloor>x\<rfloor>" | "x - of_int \<lfloor>x\<rfloor> = 1 / 2" "odd \<lfloor>x\<rfloor>"
    by fastforce
  then show ?thesis
  proof cases
    case 1
    with fl show ?thesis by (simp add: round_half_even_cases(1))
  next
    case 2
    with fl show ?thesis by (simp add: round_half_even_cases(2))
  next
    case 3
    with fl show ?thesis by (simp add: round_half_even_cases(3))
  next
    case 4
    with fl show ?thesis by (simp add: round_half_even_cases(4))
  qed
qed


lemma round_half_even_near_even:
  fixes delta :: rat
  assumes "even n" and "\<bar>delta\<bar> \<le> 1 / 2"
  shows "round_half_even (of_int n + delta) = n"
proof -
  consider "delta = 1 / 2" | "delta = - (1 / 2)" | "0 \<le> delta" "delta < 1 / 2"
    | "- (1 / 2) < delta" "delta < 0"
    using assms(2) by fastforce
  then show ?thesis
  proof cases
    case 1
    have "\<lfloor>of_int n + delta\<rfloor> = n"
      unfolding 1 by (rule floor_unique) simp_all
    with assms(1) 1 show ?thesis
      using round_half_even_cases(3) [of "of_int n + delta"] by simp
  next
    case 2
    have "\<lfloor>of_int n + delta\<rfloor> = n - 1"
      unfolding 2 by (rule floor_unique) simp_all
    with assms(1) 2 show ?thesis
      using round_half_even_cases(4) [of "of_int n + delta"] by simp
  next
    case 3
    then have "\<lfloor>of_int n + delta\<rfloor> = n"
      by (intro floor_unique) simp_all
    with 3 show ?thesis
      using round_half_even_cases(1) [of "of_int n + delta"] by simp
  next
    case 4
    then have "\<lfloor>of_int n + delta\<rfloor> = n - 1"
      by (intro floor_unique) simp_all
    with 4 show ?thesis
      using round_half_even_cases(2) [of "of_int n + delta"] by simp
  qed
qed

lemma round_half_even_nonneg:
  assumes "0 \<le> x"
  shows "0 \<le> round_half_even x"
proof -
  from assms have "0 \<le> \<lfloor>x\<rfloor>" by simp
  then show ?thesis
    by (simp add: round_half_even_def Let_def)
qed

lemma round_half_even_le_double:
  assumes "0 \<le> x"
  shows "of_int (round_half_even x) \<le> 2 * x"
proof (cases "x < 1 / 2")
  case True
  with assms have "\<lfloor>x\<rfloor> = 0"
    by (intro floor_unique) simp_all
  with True have "round_half_even x = 0"
    using round_half_even_cases(1) [of x] by simp
  with assms show ?thesis by simp
next
  case False
  have "of_int (round_half_even x) - x \<le> 1 / 2"
    using round_half_even_close [of x] by linarith
  with False show ?thesis by linarith
qed

subsection \<open>The binary exponent\<close>

lemma expo_bounds:
  assumes "q \<noteq> 0"
  shows "2 powi expo q \<le> \<bar>q\<bar>" and "\<bar>q\<bar> < 2 powi (expo q + 1)"
proof -
  have "2 powi expo q \<le> \<bar>q\<bar> \<and> \<bar>q\<bar> < 2 powi (expo q + 1)"
  proof (cases "1 \<le> \<bar>q\<bar>")
    case True
    define x where "x = \<lfloor>\<bar>q\<bar>\<rfloor>"
    from True have x: "0 < x" by (simp add: x_def)
    have fl: "of_int x \<le> \<bar>q\<bar>" "\<bar>q\<bar> < of_int x + 1"
      unfolding x_def by linarith+
    from bitlen_bounds [OF x] have lo: "2 ^ nat (bitlen x - 1) \<le> x" and hi: "x < 2 ^ nat (bitlen x)"
      by simp_all
    have pos: "1 \<le> bitlen x"
      using bitlen_eq_zero_iff [of x] bitlen_nonneg [of x] x by linarith
    have e: "expo q = bitlen x - 1"
      using True by (simp add: expo_def x_def)
    have "(of_int (2 ^ nat (bitlen x - 1)) :: rat) \<le> of_int x"
      using lo by (simp only: of_int_le_iff)
    then have "(2::rat) ^ nat (bitlen x - 1) \<le> of_int x"
      by simp
    moreover have "(2::rat) powi expo q = 2 ^ nat (bitlen x - 1)"
      using pos by (simp add: e power_int_nonneg_exp)
    ultimately have a: "2 powi expo q \<le> \<bar>q\<bar>"
      using fl(1) by linarith
    from hi have "x + 1 \<le> 2 ^ nat (bitlen x)" by linarith
    then have "(of_int (x + 1) :: rat) \<le> of_int (2 ^ nat (bitlen x))"
      by (simp only: of_int_le_iff)
    then have "of_int x + 1 \<le> (2::rat) ^ nat (bitlen x)"
      by simp
    moreover have "(2::rat) powi (expo q + 1) = 2 ^ nat (bitlen x)"
      using pos by (simp add: e power_int_nonneg_exp)
    ultimately have b: "\<bar>q\<bar> < 2 powi (expo q + 1)"
      using fl(2) by linarith
    from a b show ?thesis ..
  next
    case False
    define y where "y = 1 / \<bar>q\<bar>"
    define n where "n = nat \<lceil>y\<rceil>"
    define k where "k = ceillog2 n"
    from False assms have q: "0 < \<bar>q\<bar>" "\<bar>q\<bar> < 1" by simp_all
    then have y: "1 < y" by (simp add: y_def)
    then have cy: "2 \<le> \<lceil>y\<rceil>" by linarith
    have n2: "2 \<le> n" unfolding n_def using cy by linarith
    have yn: "y \<le> of_nat n" "of_nat n < y + 1"
      using cy unfolding n_def by (simp_all add: of_nat_nat) linarith+
    have e: "expo q = - int k"
      using False by (simp add: expo_def k_def n_def y_def)
    have up: "n \<le> 2 ^ k"
      unfolding k_def by (rule le_two_power_ceillog2)
    have k1: "1 \<le> k"
    proof (rule ccontr)
      assume "\<not> 1 \<le> k"
      then have "k = 0" by simp
      with up n2 show False by simp
    qed
    have "2 ^ k < 2 * n"
      unfolding k_def using n2 by (intro two_power_ceillog2_gt) simp
    moreover have "(2::nat) ^ k = 2 * 2 ^ (k - 1)"
      using k1 by (cases k) simp_all
    ultimately have low: "2 ^ (k - 1) + 1 \<le> n" by simp
    have "y \<le> 2 ^ k"
    proof -
      have "of_nat n \<le> (of_nat (2 ^ k) :: rat)"
        using up by (simp only: of_nat_le_iff)
      moreover have "(of_nat (2 ^ k) :: rat) = 2 ^ k"
        by simp
      ultimately show ?thesis using yn(1) by linarith
    qed
    then have "1 / 2 ^ k \<le> 1 / y"
      using y by (intro divide_left_mono) simp_all
    then have a: "2 powi expo q \<le> \<bar>q\<bar>"
      using q by (simp add: e power_int_minus_divide y_def)
    have "(of_nat (2 ^ (k - 1) + 1) :: rat) \<le> of_nat n"
      using low by (simp only: of_nat_le_iff)
    moreover have "(of_nat (2 ^ (k - 1) + 1) :: rat) = 2 ^ (k - 1) + 1"
      by simp
    ultimately have "2 ^ (k - 1) < y"
      using yn(2) by linarith
    moreover from y have "0 < y" by linarith
    ultimately have "1 / y < 1 / 2 ^ (k - 1)"
      by (intro divide_strict_left_mono) simp_all
    moreover have "2 powi (expo q + 1) = 1 / (2::rat) ^ (k - 1)"
    proof -
      have "expo q + 1 = - int (k - 1)"
        using k1 by (simp add: e)
      then show ?thesis
        by (simp add: power_int_minus_divide)
    qed
    ultimately have b: "\<bar>q\<bar> < 2 powi (expo q + 1)"
      using q by (simp add: y_def)
    from a b show ?thesis ..
  qed
  then show "2 powi expo q \<le> \<bar>q\<bar>" and "\<bar>q\<bar> < 2 powi (expo q + 1)"
    by simp_all
qed

lemma expo_unique:
  assumes "2 powi e \<le> \<bar>q\<bar>" and "\<bar>q\<bar> < 2 powi (e + 1)"
  shows "expo q = e"
proof -
  have pos: "(0::rat) < 2 powi e" by simp
  have "q \<noteq> 0"
  proof
    assume "q = 0"
    with assms(1) have "(2::rat) powi e \<le> 0" by simp
    with pos show False by linarith
  qed
  note b = expo_bounds [OF this]
  have "\<not> e + 1 \<le> expo q"
  proof
    assume "e + 1 \<le> expo q"
    then have "(2::rat) powi (e + 1) \<le> 2 powi expo q"
      by (intro power_int_increasing) simp_all
    with b(1) assms(2) show False by linarith
  qed
  moreover have "\<not> expo q + 1 \<le> e"
  proof
    assume "expo q + 1 \<le> e"
    then have "(2::rat) powi (expo q + 1) \<le> 2 powi e"
      by (intro power_int_increasing) simp_all
    with b(2) assms(1) show False by linarith
  qed
  ultimately show ?thesis by linarith
qed

subsection \<open>Rounding to binary64\<close>

lemma round_double_0: "round_double 0 = 0"
  by (simp add: round_double_def)

lemma round_double_minus: "round_double (- q) = - round_double q"
  by (simp add: round_double_def expo_def Let_def)

lemma round_double_bound: "\<bar>round_double q\<bar> \<le> 2 * \<bar>q\<bar>"
proof (cases "q = 0")
  case True
  then show ?thesis by (simp add: round_double_0)
next
  case False
  define s where "s = max (expo q - 52) (- 1074)"
  define z where "z = \<bar>q\<bar> / 2 powi s"
  have p: "(0::rat) < 2 powi s" by simp
  have z0: "0 \<le> z" unfolding z_def using p by simp
  have rd: "round_double q = sgn q * (of_int (round_half_even z) * 2 powi s)"
    using False by (simp add: round_double_def Let_def s_def z_def)
  have m0: "(0::rat) \<le> of_int (round_half_even z)"
    using round_half_even_nonneg [OF z0] by simp
  define M :: rat where "M = of_int (round_half_even z) * 2 powi s"
  have M0: "0 \<le> M"
    unfolding M_def using m0 p by (intro mult_nonneg_nonneg) simp_all
  have "\<bar>round_double q\<bar> = \<bar>sgn q\<bar> * \<bar>M\<bar>"
    unfolding rd M_def by (rule abs_mult)
  moreover have "\<bar>sgn q\<bar> = 1"
    using False by (simp add: abs_sgn_eq)
  moreover have "\<bar>M\<bar> = M"
    using M0 by (rule abs_of_nonneg)
  ultimately have "\<bar>round_double q\<bar> = of_int (round_half_even z) * 2 powi s"
    by (simp add: M_def)
  also have "\<dots> \<le> (2 * z) * 2 powi s"
    using round_half_even_le_double [OF z0] p by (intro mult_right_mono) simp_all
  also have "(2 * z) * 2 powi s = 2 * \<bar>q\<bar>"
    unfolding z_def by simp
  finally show ?thesis .
qed

lemma round_double_normal:
  assumes "0 < q" and "2 powi e \<le> q" and "q < 2 powi (e + 1)" and "- 1022 \<le> e" and "e \<le> 52"
  shows "round_double q = of_int (round_half_even (q * 2 ^ nat (52 - e))) / 2 ^ nat (52 - e)"
proof -
  have ex: "expo q = e"
    using assms(1,2,3) by (intro expo_unique) simp_all
  have s: "max (expo q - 52) (- 1074) = e - 52"
    using assms(4) by (simp add: ex)
  have "e - 52 = - int (nat (52 - e))"
    using assms(5) by simp
  then have "(2::rat) powi (e - 52) = 1 / 2 powi int (nat (52 - e))"
    by (simp only: power_int_minus_divide)
  then have pw: "(2::rat) powi (e - 52) = 1 / 2 ^ nat (52 - e)"
    by (simp only: power_int_of_nat)
  have "round_double q = sgn q * of_int (round_half_even (\<bar>q\<bar> / 2 powi (e - 52))) * 2 powi (e - 52)"
    using assms(1) by (simp add: round_double_def Let_def s)
  also have "\<dots> = of_int (round_half_even (q * 2 ^ nat (52 - e))) / 2 ^ nat (52 - e)"
    using assms(1) unfolding pw by simp
  finally show ?thesis .
qed


section \<open>Properties of the model decoder\<close>

lemma all_less_6: "(\<forall>k<6. P k) \<longleftrightarrow> P 0 \<and> P 1 \<and> P 2 \<and> P 3 \<and> P 4 \<and> P (5::nat)"
  by (auto simp: eval_nat_numeral All_less_Suc)

lemma length_model_dictionary: "length model_dictionary = 37"
  by (simp add: model_dictionary_def)

lemma py_list_get_model_dictionary:
  "py_list_get model_dictionary i =
     (if - 37 \<le> i \<and> i \<le> 36 then Inr (wrapped_symbol i) else Inl IndexError)"
  by (auto simp: py_list_get_def length_model_dictionary wrapped_symbol_def add.commute)

lemma parse_model_name_loop_indices:
  assumes "list_all2 (\<lambda>a i. \<exists>raw. data Register a = Some raw \<and> parse_ecoforest_int raw = Inr i) as idx"
  shows "parse_model_name_loop data as acc =
           (if \<forall>i \<in> set idx. - 37 \<le> i \<and> i \<le> 36
            then Inr (acc @ concat (map wrapped_symbol idx)) else Inl IndexError)"
  using assms
proof (induction as idx arbitrary: acc rule: list_all2_induct)
  case Nil
  then show ?case by simp
next
  case (Cons a as i idx)
  from Cons.hyps(1) obtain raw where "data Register a = Some raw" "parse_ecoforest_int raw = Inr i"
    by blast
  then show ?case
    by (simp add: py_list_get_model_dictionary Cons.IH)
qed

lemma model_addresses:
  "[MODEL_ADDRESS .. MODEL_ADDRESS + MODEL_LENGTH - 1] = map (\<lambda>k. MODEL_ADDRESS + int k) [0 ..< 6]"
proof -
  have "[MODEL_ADDRESS .. MODEL_ADDRESS + MODEL_LENGTH - 1] = [5323, 5324, 5325, 5326, 5327, 5328]"
    by code_simp
  moreover have "map (\<lambda>k. MODEL_ADDRESS + int k) [0 ..< 6] = [5323, 5324, 5325, 5326, 5327, 5328]"
    by code_simp
  ultimately show ?thesis by simp
qed

lemma parse_model_name_indices:
  assumes len: "length idx = 6"
    and regs: "\<forall>k<6. \<exists>raw. data Register (MODEL_ADDRESS + int k) = Some raw
                        \<and> parse_ecoforest_int raw = Inr (idx ! k)"
  shows "parse_model_name data =
           (if \<forall>i \<in> set idx. - 37 \<le> i \<and> i \<le> 36
            then Inr (concat (map wrapped_symbol idx)) else Inl IndexError)"
proof -
  have "list_all2 (\<lambda>a i. \<exists>raw. data Register a = Some raw \<and> parse_ecoforest_int raw = Inr i)
          (map (\<lambda>k. MODEL_ADDRESS + int k) [0 ..< 6]) idx"
    using len regs by (simp add: list_all2_conv_all_nth)
  from parse_model_name_loop_indices [of data _ idx "[]", OF this] show ?thesis
    by (simp add: parse_model_name_def model_addresses)
qed

lemma wrapped_symbol_alphabet_list:
  "list_all (\<lambda>n. wrapped_symbol (int n) = alphabet_symbol (int n)) [0 ..< 37]"
  by code_simp

lemma wrapped_symbol_alphabet:
  assumes "0 \<le> i" "i \<le> 36"
  shows "wrapped_symbol i = alphabet_symbol i"
proof -
  from assms have "nat i \<in> set [0 ..< 37]" by auto
  with wrapped_symbol_alphabet_list have "wrapped_symbol (int (nat i)) = alphabet_symbol (int (nat i))"
    unfolding list_all_iff by blast
  with assms show ?thesis by simp
qed

text \<open>
  C5 (amended). The decoder reads the six registers 5323 to 5328. When they decode to
  indices within 0..36, the result is the concatenation, in address order, of the alphabet's
  symbols: the two-character placeholder for 0, a digit for 1..10, a capital letter for
  11..36. The all-zero block therefore gives twelve dashes.
\<close>

theorem parse_model_name_alphabet:
  assumes "length idx = 6"
    and "\<forall>k<6. \<exists>raw. data Register (MODEL_ADDRESS + int k) = Some raw
                  \<and> parse_ecoforest_int raw = Inr (idx ! k)"
    and "\<forall>i \<in> set idx. 0 \<le> i \<and> i \<le> 36"
  shows "parse_model_name data = Inr (concat (map alphabet_symbol idx))"
proof -
  have cond: "\<forall>i \<in> set idx. - 37 \<le> i \<and> i \<le> 36"
    using assms(3) by auto
  have eq: "map wrapped_symbol idx = map alphabet_symbol idx"
    using assms(3) by (simp add: wrapped_symbol_alphabet)
  from parse_model_name_indices [of idx data, OF assms(1,2)] cond
  have "parse_model_name data = Inr (concat (map wrapped_symbol idx))"
    by simp
  then show ?thesis by (simp only: eq)
qed

theorem parse_model_name_alphabet_witness:
  "parse_model_name (\<lambda>dt a. Some ''0000'') = Inr ''------------''
   \<and> parse_model_name (\<lambda>dt a. if a = 5323 then Some ''0001'' else if a = 5324 then Some ''000a''
         else if a = 5325 then Some ''000b'' else if a = 5326 then Some ''0024'' else Some ''0000'')
       = Inr ''09AZ----''"
proof -
  let ?d0 = "\<lambda>(dt::DataTypes) (a::int). Some ''0000''"
  have p0: "parse_ecoforest_int ''0000'' = Inr 0" by code_simp
  have "parse_model_name ?d0 = Inr (concat (map alphabet_symbol [0, 0, 0, 0, 0, 0]))"
    by (rule parse_model_name_alphabet) (simp_all add: p0 all_less_6)
  moreover have "concat (map alphabet_symbol [0, 0, 0, 0, 0, 0]) = ''------------''"
    by code_simp
  ultimately have z: "parse_model_name ?d0 = Inr ''------------''" by simp
  let ?d1 = "\<lambda>(dt::DataTypes) (a::int). if a = 5323 then Some ''0001'' else if a = 5324 then Some ''000a''
         else if a = 5325 then Some ''000b'' else if a = 5326 then Some ''0024'' else Some ''0000''"
  have p: "parse_ecoforest_int ''0001'' = Inr 1" "parse_ecoforest_int ''000a'' = Inr 10"
    "parse_ecoforest_int ''000b'' = Inr 11" "parse_ecoforest_int ''0024'' = Inr 36"
    by code_simp+
  have "parse_model_name ?d1 = Inr (concat (map alphabet_symbol [1, 10, 11, 36, 0, 0]))"
    by (rule parse_model_name_alphabet)
       (simp_all add: p p0 MODEL_ADDRESS_def all_less_6)
  moreover have "concat (map alphabet_symbol [1, 10, 11, 36, 0, 0]) = ''09AZ----''"
    by code_simp
  ultimately show ?thesis using z by simp
qed

theorem all_zero_model_counterexample:
  "parse_model_name (\<lambda>dt a. Some ''0000'') = Inr ''------------''
   \<and> parse_model_name (\<lambda>dt a. Some ''0000'') \<noteq> Inr ''------''"
proof -
  have "parse_model_name (\<lambda>dt a. Some ''0000'') = Inr ''------------''" by code_simp
  then show ?thesis by simp
qed

text \<open>
  C8 (amended). With the six registers present and decodable, the decoder raises
  \<open>IndexError\<close> whenever one of the six indices lies outside -37..36, and returns a model
  string when all of them lie within -37..36: an index from -37 to -1 counts from the end
  of the alphabet, as Python's list indexing does.
\<close>

theorem parse_model_name_index_fault:
  assumes "length idx = 6"
    and "\<forall>k<6. \<exists>raw. data Register (MODEL_ADDRESS + int k) = Some raw
                  \<and> parse_ecoforest_int raw = Inr (idx ! k)"
  shows "((\<exists>i \<in> set idx. i < - 37 \<or> 36 < i) \<longrightarrow> parse_model_name data = Inl IndexError)
       \<and> ((\<forall>i \<in> set idx. - 37 \<le> i \<and> i \<le> 36) \<longrightarrow>
            parse_model_name data
              = Inr (concat (map (\<lambda>i. model_dictionary ! nat (if i < 0 then 37 + i else i)) idx)))"
proof -
  have w: "wrapped_symbol = (\<lambda>i. model_dictionary ! nat (if i < 0 then 37 + i else i))"
    by (rule ext) (simp add: wrapped_symbol_def)
  show ?thesis
    unfolding parse_model_name_indices [of idx data, OF assms] w by (auto simp: not_le)
qed


theorem parse_model_name_index_fault_witness:
  "parse_model_name (\<lambda>dt a. Some ''0025'') = Inl IndexError
   \<and> parse_model_name (\<lambda>dt a. Some ''ffdb'') = Inr ''------------''"
proof -
  have p: "parse_ecoforest_int ''0025'' = Inr 37" "parse_ecoforest_int ''ffdb'' = Inr (- 37)"
    by (simp_all add: parse_ecoforest_int_def py_int_str_def is_space_def digit_value_def)
  let ?hi = "[37, 37, 37, 37, 37, 37 :: int]"
  let ?lo = "[- 37, - 37, - 37, - 37, - 37, - 37 :: int]"
  have len: "length ?hi = 6" "length ?lo = 6"
    by simp_all
  have hi: "\<forall>k<6. \<exists>raw. (\<lambda>(dt::DataTypes) (a::int). Some ''0025'') Register (MODEL_ADDRESS + int k) = Some raw
                  \<and> parse_ecoforest_int raw = Inr (?hi ! k)"
    by (simp add: p all_less_6)
  have lo: "\<forall>k<6. \<exists>raw. (\<lambda>(dt::DataTypes) (a::int). Some ''ffdb'') Register (MODEL_ADDRESS + int k) = Some raw
                  \<and> parse_ecoforest_int raw = Inr (?lo ! k)"
    by (simp add: p all_less_6)
  have out: "\<exists>i \<in> set ?hi. i < - 37 \<or> 36 < i"
    by simp
  have inside: "\<forall>i \<in> set ?lo. - 37 \<le> i \<and> i \<le> 36"
    by simp
  have a: "parse_model_name (\<lambda>dt a. Some ''0025'') = Inl IndexError"
    using parse_model_name_index_fault [of ?hi "\<lambda>dt a. Some ''0025''", OF len(1) hi, THEN conjunct1] out
    by (rule mp)
  have dashes: "concat (map (\<lambda>i. model_dictionary ! nat (if i < 0 then 37 + i else i)) ?lo) = ''------------''"
    by (simp add: model_dictionary_def)
  have "parse_model_name (\<lambda>dt a. Some ''ffdb'')
          = Inr (concat (map (\<lambda>i. model_dictionary ! nat (if i < 0 then 37 + i else i)) ?lo))"
    using parse_model_name_index_fault [of ?lo "\<lambda>dt a. Some ''ffdb''", OF len(2) lo, THEN conjunct2] inside
    by (rule mp)
  then have c: "parse_model_name (\<lambda>dt a. Some ''ffdb'') = Inr ''------------''"
    by (simp only: dashes)
  from a c show ?thesis by (rule conjI)
qed

theorem negative_index_counterexample:
  "parse_ecoforest_int ''ffff'' = Inr (- 1)
   \<and> parse_model_name (\<lambda>dt a. Some ''ffff'') = Inr ''ZZZZZZ''"
proof -
  have p: "parse_ecoforest_int ''ffff'' = Inr (- 1)"
    by (simp add: parse_ecoforest_int_def py_int_str_def is_space_def digit_value_def)
  let ?idx = "[- 1, - 1, - 1, - 1, - 1, - 1 :: int]"
  have "parse_model_name (\<lambda>dt a. Some ''ffff'') =
          (if \<forall>i \<in> set ?idx. - 37 \<le> i \<and> i \<le> 36
           then Inr (concat (map wrapped_symbol ?idx)) else Inl IndexError)"
    by (rule parse_model_name_indices) (simp_all add: p all_less_6)
  then have "parse_model_name (\<lambda>dt a. Some ''ffff'') = Inr ''ZZZZZZ''"
    by (simp add: wrapped_symbol_def model_dictionary_def)
  with p show ?thesis by (rule conjI)
qed

section \<open>Properties of the value codec\<close>

lemma tenth_no_overflow:
  assumes "\<bar>i\<bar> \<le> 65536"
  shows "\<not> overflows (round_double (of_int i / 10))"
proof -
  have "\<bar>round_double (of_int i / 10)\<bar> \<le> 2 * \<bar>(of_int i :: rat) / 10\<bar>"
    by (rule round_double_bound)
  also have "\<dots> = \<bar>of_int i\<bar> / 5"
    by simp
  also have "\<dots> \<le> 65536 / 5"
  proof -
    have "(of_int \<bar>i\<bar> :: rat) \<le> of_int 65536"
      using assms by (simp only: of_int_le_iff)
    then show ?thesis by simp
  qed
  also have "(65536::rat) / 5 < 2 ^ 1024"
    by simp
  finally show ?thesis
    by (simp add: overflows_def)
qed

lemma parse_ecoforest_float_value:
  assumes "parse_ecoforest_int raw = Inr i" and "\<bar>i\<bar> \<le> 65536"
  shows "parse_ecoforest_float raw = Inr (Finite (round_double (of_int i / 10)))"
  using assms(1) tenth_no_overflow [OF assms(2)]
  by (simp add: parse_ecoforest_float_def py_int_truediv_def Let_def)

text \<open>
  C2. A raw value of four hexadecimal digits is read as the unsigned number \<open>u\<close> they
  denote, below 65536; the decoded integer is \<open>u\<close> when \<open>u \<le> 32768\<close> and \<open>u - 65536\<close> above,
  and the decoded float is that integer divided by ten, correctly rounded.
\<close>

theorem parse_ecoforest_int_four_hex:
  assumes "digit_value a = Some da" and "da < 16" and "digit_value b = Some db" and "db < 16"
    and "digit_value c = Some dc" and "dc < 16" and "digit_value d = Some dd" and "dd < 16"
  shows "4096 * da + 256 * db + 16 * dc + dd < 65536
       \<and> parse_ecoforest_int [a, b, c, d]
           = Inr (if int (4096 * da + 256 * db + 16 * dc + dd) \<le> 32768
                  then int (4096 * da + 256 * db + 16 * dc + dd)
                  else int (4096 * da + 256 * db + 16 * dc + dd) - 65536)
       \<and> parse_ecoforest_float [a, b, c, d]
           = Inr (Finite (round_double
               (of_int (if int (4096 * da + 256 * db + 16 * dc + dd) \<le> 32768
                        then int (4096 * da + 256 * db + 16 * dc + dd)
                        else int (4096 * da + 256 * db + 16 * dc + dd) - 65536) / 10)))"
proof -
  define u where "u = 4096 * da + 256 * db + 16 * dc + dd"
  define i where "i = (if int u \<le> 32768 then int u else int u - 65536)"
  have u: "u < 65536"
    unfolding u_def using assms(2,4,6,8) by linarith
  have "py_int_str [a, b, c, d] 16 = Inr (int u)"
    unfolding u_def using assms by (rule py_int_str_four_hex)
  then have p: "parse_ecoforest_int [a, b, c, d] = Inr i"
    by (simp add: parse_ecoforest_int_def i_def)
  have "\<bar>i\<bar> \<le> 65536"
    unfolding i_def using u by simp
  from parse_ecoforest_float_value [OF p this]
  have f: "parse_ecoforest_float [a, b, c, d] = Inr (Finite (round_double (of_int i / 10)))" .
  from u p f show ?thesis
    unfolding i_def u_def by simp
qed

lemma digit_values:
  "digit_value (CHR ''0'') = Some 0" "digit_value (CHR ''8'') = Some 8"
  "digit_value (CHR ''f'') = Some 15" "digit_value (CHR ''F'') = Some 15"
  by (simp_all add: digit_value_def)

lemma double_minus_tenth:
  "round_double (- (1 / 10)) = - (3602879701896397 / 36028797018963968)"
proof -
  have rd: "round_double (1 / 10)
              = of_int (round_half_even ((1 / 10) * 2 ^ nat (52 - (- 4)))) / 2 ^ nat (52 - (- 4))"
    by (rule round_double_normal) simp_all
  have x: "(1 / 10 :: rat) * 2 ^ nat (52 - (- 4)) = 36028797018963968 / 5"
    by simp
  have fl: "\<lfloor>(36028797018963968 :: rat) / 5\<rfloor> = 7205759403792793"
    by (rule floor_unique) simp_all
  have "round_half_even (36028797018963968 / 5) = \<lfloor>(36028797018963968 :: rat) / 5\<rfloor> + 1"
    by (rule round_half_even_cases(2)) (simp add: fl)
  then have r: "round_half_even (36028797018963968 / 5) = 7205759403792794"
    by (simp add: fl)
  have "round_double (1 / 10) = 3602879701896397 / 36028797018963968"
    unfolding rd x r by simp
  with round_double_minus [of "1 / 10"] show ?thesis
    by simp
qed

theorem parse_ecoforest_int_four_hex_witness:
  "parse_ecoforest_int ''8000'' = Inr 32768
   \<and> parse_ecoforest_int ''ffff'' = Inr (- 1)
   \<and> parse_ecoforest_int ''FFFF'' = Inr (- 1)
   \<and> parse_ecoforest_float ''ffff'' = Inr (Finite (- 3602879701896397 / 36028797018963968))
   \<and> parse_ecoforest_float ''0000'' = Inr (Finite 0)"
proof -
  note z = digit_values(1) and e = digit_values(2) and f = digit_values(3) and F = digit_values(4)
  have a: "parse_ecoforest_int ''8000'' = Inr 32768"
    using parse_ecoforest_int_four_hex [OF e _ z _ z _ z] by simp
  have b: "parse_ecoforest_int ''ffff'' = Inr (- 1)
           \<and> parse_ecoforest_float ''ffff'' = Inr (Finite (round_double (- 1 / 10)))"
    using parse_ecoforest_int_four_hex [OF f _ f _ f _ f] by simp
  have c: "parse_ecoforest_int ''FFFF'' = Inr (- 1)"
    using parse_ecoforest_int_four_hex [OF F _ F _ F _ F] by simp
  have d: "parse_ecoforest_float ''0000'' = Inr (Finite 0)"
    using parse_ecoforest_int_four_hex [OF z _ z _ z _ z] by (simp add: round_double_0)
  from a b c d show ?thesis
    by (simp add: double_minus_tenth)
qed





section \<open>Properties of the snapshot build\<close>

lemma decode_loop_other:
  "decode_loop ms state info = Inr info' \<Longrightarrow> name \<notin> fst ` set ms \<Longrightarrow> info' name = info name"
proof (induction ms arbitrary: info)
  case Nil
  then show ?case by simp
next
  case (Cons m rest)
  obtain n d where m: "m = (n, d)" by (cases m)
  from Cons.prems(2) have ne: "name \<noteq> n" and notin: "name \<notin> fst ` set rest"
    by (simp_all add: m)
  from Cons.prems(1) obtain info1 where
    step: "decode_loop rest state info1 = Inr info'" and same: "info1 name = info name"
    using ne by (auto simp: m split: sum.splits option.splits)
  from Cons.IH [OF step notin] same show ?case by simp
qed

lemma decode_loop_entry:
  "decode_loop ms state info = Inr info' \<Longrightarrow> distinct (map fst ms) \<Longrightarrow> (name, d) \<in> set ms
   \<Longrightarrow> \<exists>r. decode_field state d = Inr r \<and> info' name = (case r of None \<Rightarrow> info name | Some v \<Rightarrow> Some v)"
proof (induction ms arbitrary: info)
  case Nil
  then show ?case by simp
next
  case (Cons m rest)
  obtain n e where m: "m = (n, e)" by (cases m)
  from Cons.prems(2) have notin: "n \<notin> fst ` set rest" and dist: "distinct (map fst rest)"
    by (simp_all add: m)
  from Cons.prems(1) obtain r info1 where
    field: "decode_field state e = Inr r"
    and info1: "info1 = (case r of None \<Rightarrow> info | Some v \<Rightarrow> info(n \<mapsto> v))"
    and step: "decode_loop rest state info1 = Inr info'"
    by (auto simp: m split: sum.splits option.splits)
  show ?case
  proof (cases "(name, d) = (n, e)")
    case True
    then have nd: "name = n" "d = e" by simp_all
    from decode_loop_other [OF step notin] have "info' n = info1 n" .
    with field show ?thesis
      unfolding nd info1 by (auto split: option.splits)
  next
    case False
    with Cons.prems(3) have mem: "(name, d) \<in> set rest" by (auto simp: m)
    with notin have ne: "name \<noteq> n" by (auto simp: image_iff)
    from ne have "info1 name = info name"
      unfolding info1 by (simp split: option.splits)
    with Cons.IH [OF step dist mem] show ?thesis by (auto split: option.splits)
  qed
qed

lemma substitute_sentinel_result:
  assumes "substitute_sentinel n e info = Inr info0"
  shows "(\<forall>name. name \<noteq> n \<longrightarrow> info0 name = info name)
       \<and> (entity_type e = ''temperature''
            \<longrightarrow> (\<exists>v. info n = Some v
                   \<and> info0 n = Some (if py_eq_float v sentinel then VNone else v)))"
  using assms
  by (auto simp: substitute_sentinel_def split: option.splits if_splits)

lemma custom_loop_step:
  assumes "custom_loop ((n, e) # rest) state info = Inr info'"
  shows "\<exists>info1. custom_loop rest state info1 = Inr info'
           \<and> (\<forall>name. name \<noteq> n \<longrightarrow> info1 name = info name)
           \<and> (entity_type e = ''temperature'' \<longrightarrow> type_name e \<noteq> ''custom''
                \<longrightarrow> (\<exists>v. info n = Some v
                       \<and> info1 n = Some (if py_eq_float v sentinel then VNone else v)))"
proof -
  from assms obtain info0 where
    s: "substitute_sentinel n e info = Inr info0"
    by (auto split: sum.splits)
  note r = substitute_sentinel_result [OF s]
  show ?thesis
  proof (cases "type_name e = ''custom''")
    case False
    with assms s have "custom_loop rest state info0 = Inr info'"
      by simp
    with r show ?thesis
      by blast
  next
    case True
    with assms s obtain v where "custom_loop rest state (info0(n \<mapsto> v)) = Inr info'"
      by (auto split: option.splits sum.splits)
    moreover have "\<forall>name. name \<noteq> n \<longrightarrow> (info0(n \<mapsto> v)) name = info name"
      using r by simp
    ultimately show ?thesis
      using True by blast
  qed
qed

lemma custom_loop_other:
  "custom_loop ms state info = Inr info' \<Longrightarrow> name \<notin> fst ` set ms \<Longrightarrow> info' name = info name"
proof (induction ms arbitrary: info)
  case Nil
  then show ?case by simp
next
  case (Cons m rest)
  obtain n d where m: "m = (n, d)" by (cases m)
  from Cons.prems(2) have ne: "name \<noteq> n" and notin: "name \<notin> fst ` set rest"
    by (simp_all add: m)
  from custom_loop_step [OF Cons.prems(1) [unfolded m]] ne obtain info1 where
    step: "custom_loop rest state info1 = Inr info'" and same: "info1 name = info name"
    by blast
  from Cons.IH [OF step notin] same show ?case by simp
qed

lemma custom_loop_temperature:
  "custom_loop ms state info = Inr info' \<Longrightarrow> distinct (map fst ms) \<Longrightarrow> (name, d) \<in> set ms
   \<Longrightarrow> entity_type d = ''temperature'' \<Longrightarrow> type_name d \<noteq> ''custom''
   \<Longrightarrow> \<exists>v. info name = Some v \<and> info' name = Some (if py_eq_float v sentinel then VNone else v)"
proof (induction ms arbitrary: info)
  case Nil
  then show ?case by simp
next
  case (Cons m rest)
  obtain n e where m: "m = (n, e)" by (cases m)
  from Cons.prems(2) have notin: "n \<notin> fst ` set rest" and dist: "distinct (map fst rest)"
    by (simp_all add: m)
  from custom_loop_step [OF Cons.prems(1) [unfolded m]] obtain info1 where
    step: "custom_loop rest state info1 = Inr info'"
    and same: "\<And>x. x \<noteq> n \<Longrightarrow> info1 x = info x"
    and temp: "entity_type e = ''temperature'' \<Longrightarrow> type_name e \<noteq> ''custom''
                \<Longrightarrow> \<exists>v. info n = Some v
                       \<and> info1 n = Some (if py_eq_float v sentinel then VNone else v)"
    by blast
  show ?case
  proof (cases "(name, d) = (n, e)")
    case True
    then have nd: "n = name" "e = d" by simp_all
    from custom_loop_other [OF step notin] have "info' name = info1 name"
      by (simp add: nd)
    with temp [unfolded nd, OF Cons.prems(4,5)] show ?thesis by auto
  next
    case False
    with Cons.prems(3) have mem: "(name, d) \<in> set rest" by (auto simp: m)
    with notin have ne: "name \<noteq> n" by (auto simp: image_iff)
    from Cons.IH [OF step dist mem Cons.prems(4,5)] same [OF ne] show ?thesis by simp
  qed
qed

lemma double_minus_9999_tenths:
  "round_double (- (9999 / 10)) = - (8795213412905779 / 8796093022208)"
proof -
  have rd: "round_double (9999 / 10)
              = of_int (round_half_even ((9999 / 10) * 2 ^ nat (52 - 9))) / 2 ^ nat (52 - 9)"
    by (rule round_double_normal) simp_all
  have x: "(9999 / 10 :: rat) * 2 ^ nat (52 - 9) = 43976067064528896 / 5"
    by simp
  have fl: "\<lfloor>(43976067064528896 :: rat) / 5\<rfloor> = 8795213412905779"
    by (rule floor_unique) simp_all
  have "round_half_even (43976067064528896 / 5) = \<lfloor>(43976067064528896 :: rat) / 5\<rfloor>"
    by (rule round_half_even_cases(1)) (simp add: fl)
  then have r: "round_half_even (43976067064528896 / 5) = 8795213412905779"
    by (simp add: fl)
  have "round_double (9999 / 10) = 8795213412905779 / 8796093022208"
    unfolding rd x r by simp
  with round_double_minus [of "9999 / 10"] show ?thesis
    by simp
qed

lemma double_minus_9998_tenths:
  "round_double (- (4999 / 5)) = - (4397166901801779 / 4398046511104)"
proof -
  have rd: "round_double (4999 / 5)
              = of_int (round_half_even ((4999 / 5) * 2 ^ nat (52 - 9))) / 2 ^ nat (52 - 9)"
    by (rule round_double_normal) simp_all
  have x: "(4999 / 5 :: rat) * 2 ^ nat (52 - 9) = 43971669018017792 / 5"
    by simp
  have fl: "\<lfloor>(43971669018017792 :: rat) / 5\<rfloor> = 8794333803603558"
    by (rule floor_unique) simp_all
  have "round_half_even (43971669018017792 / 5) = \<lfloor>(43971669018017792 :: rat) / 5\<rfloor>"
    by (rule round_half_even_cases(1)) (simp add: fl)
  then have r: "round_half_even (43971669018017792 / 5) = 8794333803603558"
    by (simp add: fl)
  have "round_double (4999 / 5) = 4397166901801779 / 4398046511104"
    unfolding rd x r by simp
  with round_double_minus [of "4999 / 5"] show ?thesis
    by simp
qed

lemma sentinel_value: "sentinel = Finite (- (8795213412905779 / 8796093022208))"
  by (simp add: sentinel_def double_minus_9999_tenths)

lemma digit_values_d8f:
  "digit_value (CHR ''d'') = Some 13" "digit_value (CHR ''8'') = Some 8"
  "digit_value (CHR ''f'') = Some 15" "digit_value (CHR ''1'') = Some 1"
  "digit_value (CHR ''2'') = Some 2" "digit_value (CHR ''0'') = Some 0"
  by (simp_all add: digit_value_def)

lemma parse_d8f1: "parse_ecoforest_float ''d8f1'' = Inr sentinel"
proof -
  have "py_int_str ''d8f1'' 16 = Inr (int (4096 * 13 + 256 * 8 + 16 * 15 + 1))"
    by (rule py_int_str_four_hex) (simp_all add: digit_values_d8f)
  then have "parse_ecoforest_int ''d8f1'' = Inr (- 9999)"
    by (simp add: parse_ecoforest_int_def)
  from parse_ecoforest_float_value [OF this] show ?thesis
    by (simp add: sentinel_def)
qed

lemma parse_d8f2:
  "parse_ecoforest_float ''d8f2'' = Inr (Finite (- (4397166901801779 / 4398046511104)))"
proof -
  have "py_int_str ''d8f2'' 16 = Inr (int (4096 * 13 + 256 * 8 + 16 * 15 + 2))"
    by (rule py_int_str_four_hex) (simp_all add: digit_values_d8f)
  then have "parse_ecoforest_int ''d8f2'' = Inr (- 9998)"
    by (simp add: parse_ecoforest_int_def)
  from parse_ecoforest_float_value [OF this] show ?thesis
    by (simp add: double_minus_9998_tenths)
qed

lemma parse_0000: "parse_ecoforest_float ''0000'' = Inr (Finite 0)"
proof -
  have "py_int_str ''0000'' 16 = Inr (int (4096 * 0 + 256 * 0 + 16 * 0 + 0))"
    by (rule py_int_str_four_hex) (simp_all add: digit_values_d8f)
  then have "parse_ecoforest_int ''0000'' = Inr 0"
    by (simp add: parse_ecoforest_int_def)
  from parse_ecoforest_float_value [OF this] show ?thesis
    by (simp add: round_double_0)
qed

lemma parse_bool_0: "parse_ecoforest_bool ''0'' = Inr False"
  by (simp add: parse_ecoforest_bool_def py_int_str_def is_space_def digit_value_def)

lemma sentinel_state_alarm: "get_alarm sentinel_state = Inr 0"
  unfolding get_alarm_def by (rule get_alarm_loop_all_zero) (simp add: sentinel_state_def)

lemma sentinel_state_model: "\<exists>model. parse_model_name sentinel_state = Inr model"
proof -
  have "parse_model_name sentinel_state = Inr ''------------''"
    unfolding sentinel_state_def by code_simp
  then show ?thesis by simp
qed

lemma sentinel_state_decode:
  "\<exists>info. decode_loop MAPPING sentinel_state Map.empty = Inr info"
  by (simp add: MAPPING_def decode_field_def raw_value_def sentinel_state_def
      parse_d8f1 parse_d8f2 parse_0000 parse_bool_0)

lemma mapping_distinct: "distinct (map fst MAPPING)"
  by (simp add: MAPPING_def)

lemma mapping_temperature:
  assumes "(name, d) \<in> set MAPPING" and "entity_type d = ''temperature''"
  shows "type_name d = ''float''"
proof -
  have "\<forall>m \<in> set MAPPING. entity_type (snd m) = ''temperature'' \<longrightarrow> type_name (snd m) = ''float''"
    unfolding MAPPING_def by simp
  with assms show ?thesis
    by force
qed

lemma decode_field_float:
  assumes "type_name d = ''float''" and "decode_field state d = Inr r"
  shows "\<exists>a raw x. address d = Some a \<and> state (data_type d) a = Some raw
           \<and> parse_ecoforest_float raw = Inr x \<and> r = Some (VFloat x)"
  using assms
  by (auto simp: decode_field_def raw_value_def split: sum.splits option.splits)

text \<open>
  C6. In the snapshot that \<^verbatim>\<open>get\<close> builds, every field of the mapping table whose entity
  type is temperature holds \<^verbatim>\<open>None\<close> when the float decoded from its register equals the
  sentinel, the binary64 value of the literal \<^verbatim>\<open>-999.9\<close>, and holds the decoded float
  unchanged otherwise.
\<close>

theorem sentinel_substitution:
  assumes "build_snapshot state = Inr (model, info)"
    and "(name, d) \<in> set MAPPING" and "entity_type d = ''temperature''"
  shows "\<exists>a raw x. address d = Some a \<and> state (data_type d) a = Some raw
           \<and> parse_ecoforest_float raw = Inr x
           \<and> info name = Some (if py_float_eq x sentinel then VNone else VFloat x)"
proof -
  from assms(1) obtain info0 where
    first: "decode_loop MAPPING state Map.empty = Inr info0"
    and second: "custom_loop MAPPING state info0 = Inr info"
    by (auto simp: build_snapshot_def split: sum.splits)
  note float = mapping_temperature [OF assms(2,3)]
  from decode_loop_entry [OF first mapping_distinct assms(2)] obtain r where
    r: "decode_field state d = Inr r"
    and v0: "info0 name = (case r of None \<Rightarrow> None | Some v \<Rightarrow> Some v)"
    by auto
  from decode_field_float [OF float r] obtain a raw x where
    x: "address d = Some a" "state (data_type d) a = Some raw" "parse_ecoforest_float raw = Inr x"
    and rx: "r = Some (VFloat x)"
    by blast
  from float have "type_name d \<noteq> ''custom''"
    by simp
  from custom_loop_temperature [OF second mapping_distinct assms(2,3) this] v0
  have "info name = Some (if py_eq_float (VFloat x) sentinel then VNone else VFloat x)"
    unfolding rx by auto
  with x show ?thesis
    by simp
qed

lemma sentinel_state_values:
  "sentinel_state Register 11 = Some ''d8f1''" "sentinel_state Register 20 = Some ''d8f2''"
  "sentinel_state Register 40 = Some ''0000''" "sentinel_state Register 41 = Some ''0000''"
  "sentinel_state Coil 83 = Some ''0''" "sentinel_state Coil 213 = Some ''0''"
  by (simp_all add: sentinel_state_def)

lemma sentinel_state_snapshot:
  "\<exists>model info. build_snapshot sentinel_state = Inr (model, info)"
proof -
  from sentinel_state_model obtain model where m: "parse_model_name sentinel_state = Inr model" ..
  have "\<exists>info. build_snapshot sentinel_state = Inr (model, info)"
    by (simp add: build_snapshot_def MAPPING_def decode_field_def raw_value_def
        sentinel_state_values parse_d8f1 parse_d8f2 parse_0000 parse_bool_0
        substitute_sentinel_def sentinel_value sentinel_state_alarm m)
  then show ?thesis ..
qed

theorem sentinel_substitution_witness:
  "\<exists>model info. build_snapshot sentinel_state = Inr (model, info)
     \<and> parse_ecoforest_float ''d8f1'' = Inr sentinel
     \<and> info ''t_dhw'' = Some VNone
     \<and> info ''t_outdoor'' = Some (VFloat (Finite (- (4397166901801779 / 4398046511104))))
     \<and> info ''number_dhw_setpoint'' = Some (VFloat (Finite 0))"
proof -
  from sentinel_state_snapshot obtain model info where
    b: "build_snapshot sentinel_state = Inr (model, info)"
    by blast
  define t where "t = \<lparr>data_type = Register, type_name = ''float'', address = Some 11,
     entity_type = ''temperature'',
     value_fn = (None :: (device_info \<Rightarrow> raw_state \<Rightarrow> error + pyval) option)\<rparr>"
  have m1: "(''t_dhw'', t) \<in> set MAPPING"
    and m2: "(''t_outdoor'', t\<lparr>address := Some 20\<rparr>) \<in> set MAPPING"
    and m3: "(''number_dhw_setpoint'', t\<lparr>address := Some 40\<rparr>) \<in> set MAPPING"
    by (simp_all add: MAPPING_def t_def)
  have "info ''t_dhw'' = Some VNone"
    using sentinel_substitution [OF b m1]
    by (auto simp: t_def sentinel_state_values parse_d8f1 sentinel_value)
  moreover have "info ''t_outdoor'' = Some (VFloat (Finite (- (4397166901801779 / 4398046511104))))"
    using sentinel_substitution [OF b m2]
    by (auto simp: t_def sentinel_state_values parse_d8f2 sentinel_value)
  moreover have "info ''number_dhw_setpoint'' = Some (VFloat (Finite 0))"
    using sentinel_substitution [OF b m3]
    by (auto simp: t_def sentinel_state_values parse_0000 sentinel_value)
  ultimately show ?thesis
    using b parse_d8f1 by blast
qed

section \<open>Properties of the write operations\<close>

lemma mapping_keys:
  "fst ` set MAPPING = {''t_dhw'', ''t_outdoor'', ''button_reset_alarms'', ''switch_dhw'',
     ''number_dhw_setpoint'', ''number_dhw_dt_start'', ''alarm''}"
  by (simp add: MAPPING_def)

lemma mapping_address_alarm: "mapping_address ''alarm'' = Inl KeyError"
  by (simp add: mapping_address_def MAPPING_def)

lemma mapping_address_t_dhw: "mapping_address ''t_dhw'' = Inr 11"
  by (simp add: mapping_address_def MAPPING_def)

lemma mapping_address_switch_dhw: "mapping_address ''switch_dhw'' = Inr 213"
  by (simp add: mapping_address_def MAPPING_def)

text \<open>
  C3 (amended). A write operation given a name that is no key of the field mapping table
  fails at once with its own exception (\<^verbatim>\<open>unknown switch\<close>, \<^verbatim>\<open>unknown register\<close>): the
  world, and with it the list of requests sent, is unchanged.
\<close>

theorem unknown_name_rejected:
  assumes "name \<notin> set (map fst MAPPING)"
  shows "turn_switch tr name on w = (Inl (Exception ''unknown switch''), w)
       \<and> set_numeric_value tr name value w = (Inl (Exception ''unknown register''), w)"
  using assms by (simp add: turn_switch_def set_numeric_value_def)

theorem unknown_name_rejected_witness:
  "''not_a_real_field'' \<notin> set (map fst MAPPING)
   \<and> turn_switch failing_transport ''not_a_real_field'' (Some True) world0
       = (Inl (Exception ''unknown switch''), world0)
   \<and> set_numeric_value failing_transport ''not_a_real_field'' (Finite 21) world0
       = (Inl (Exception ''unknown register''), world0)"
proof -
  have h: "''not_a_real_field'' \<notin> set (map fst MAPPING)"
    by (simp add: mapping_keys)
  from unknown_name_rejected [OF h, of failing_transport "Some True" world0 "Finite 21"] h
  show ?thesis by simp
qed

theorem wrong_kind_not_rejected_counterexample:
  "turn_switch failing_transport ''t_dhw'' (Some True) world0
     = (Inl TransportError,
        \<lparr>device = (), calls = [\<lparr>idOperacion = 2011, dir = 11, num = 1, extra = Some (WInt 1)\<rparr>]\<rparr>)
   \<and> calls (snd (set_numeric_value failing_transport ''switch_dhw'' (Finite 0) world0))
     = [\<lparr>idOperacion = 2012, dir = 213, num = 1, extra = Some (WStr ''0000'')\<rparr>]"
proof -
  have c: "convert_to_ecoforest_int (Finite 0) = Inr ''0000''"
    by (simp add: convert_to_ecoforest_int_def round_double_def overflows_def py_hex_def
        hex_char_def hex_digits_small)
  show ?thesis
    by (simp add: turn_switch_def set_numeric_value_def mapping_keys mapping_address_t_dhw
        mapping_address_switch_dhw c request_send_def failing_transport_def world0_def
        OP_TYPE_SET_SWITCH_def OP_TYPE_SET_REGISTER_def)
qed

text \<open>
  C10 (amended). The name \<^verbatim>\<open>alarm\<close> is a key of the table without an address. \<^verbatim>\<open>turn_switch\<close>
  passes the name check and fails with \<open>KeyError\<close> for every \<^verbatim>\<open>on\<close>. \<^verbatim>\<open>set_numeric_value\<close>
  passes the name check and encodes the value first: a NaN fails with \<open>ValueError\<close>, an
  infinity and a finite value whose tenfold overflows fail with \<open>OverflowError\<close>, and every
  other value fails with \<open>KeyError\<close> at the address lookup. The error is never the
  unknown-name exception, and the world, hence the list of requests sent, is unchanged.
\<close>

theorem alarm_write_key_error:
  "turn_switch tr ''alarm'' on w = (Inl KeyError, w)
   \<and> set_numeric_value tr ''alarm'' NaN w = (Inl ValueError, w)
   \<and> set_numeric_value tr ''alarm'' PosInf w = (Inl OverflowError, w)
   \<and> set_numeric_value tr ''alarm'' NegInf w = (Inl OverflowError, w)
   \<and> (\<forall>q. overflows (round_double (q * 10)) \<longrightarrow>
         set_numeric_value tr ''alarm'' (Finite q) w = (Inl OverflowError, w))
   \<and> (\<forall>q. \<not> overflows (round_double (q * 10)) \<longrightarrow>
         set_numeric_value tr ''alarm'' (Finite q) w = (Inl KeyError, w))
   \<and> (\<forall>q. \<bar>q\<bar> < 2 ^ 1000 \<longrightarrow>
         set_numeric_value tr ''alarm'' (Finite q) w = (Inl KeyError, w))
   \<and> fst (set_numeric_value tr ''alarm'' value w)
         \<in> {Inl KeyError, Inl ValueError, Inl OverflowError}
   \<and> snd (set_numeric_value tr ''alarm'' value w) = w"
proof -
  have key: "''alarm'' \<in> fst ` set MAPPING"
    by (simp add: mapping_keys)
  have fin: "set_numeric_value tr ''alarm'' (Finite q) w
               = (if overflows (round_double (q * 10)) then (Inl OverflowError, w)
                  else (Inl KeyError, w))" for q
    using key
    by (simp add: set_numeric_value_def mapping_address_alarm convert_to_ecoforest_int_def Let_def)
  have nan: "set_numeric_value tr ''alarm'' NaN w = (Inl ValueError, w)"
    using key by (simp add: set_numeric_value_def convert_to_ecoforest_int_def)
  have pinf: "set_numeric_value tr ''alarm'' PosInf w = (Inl OverflowError, w)"
    using key by (simp add: set_numeric_value_def convert_to_ecoforest_int_def)
  have ninf: "set_numeric_value tr ''alarm'' NegInf w = (Inl OverflowError, w)"
    using key by (simp add: set_numeric_value_def convert_to_ecoforest_int_def)
  have small: "\<not> overflows (round_double (q * 10))" if "\<bar>q\<bar> < 2 ^ 1000" for q :: rat
  proof -
    have "\<bar>round_double (q * 10)\<bar> \<le> 2 * \<bar>q * 10\<bar>"
      by (rule round_double_bound)
    also have "\<dots> = 20 * \<bar>q\<bar>"
      by (simp add: abs_mult)
    also have "\<dots> < 20 * 2 ^ 1000"
      using that by simp
    also have "(20::rat) * 2 ^ 1000 < 2 ^ 1024"
      by simp
    finally show ?thesis
      by (simp add: overflows_def)
  qed
  have every: "fst (set_numeric_value tr ''alarm'' value w)
                 \<in> {Inl KeyError, Inl ValueError, Inl OverflowError}
               \<and> snd (set_numeric_value tr ''alarm'' value w) = w"
    by (cases "value") (simp_all add: fin nan pinf ninf)
  have turn: "turn_switch tr ''alarm'' on w = (Inl KeyError, w)"
    using key by (simp add: turn_switch_def mapping_address_alarm)
  show ?thesis
    using turn nan pinf ninf every by (simp add: fin small)
qed

theorem alarm_write_key_error_witness:
  "turn_switch failing_transport ''alarm'' (Some True) world0 = (Inl KeyError, world0)
   \<and> set_numeric_value failing_transport ''alarm'' (Finite 0) world0 = (Inl KeyError, world0)
   \<and> set_numeric_value failing_transport ''alarm'' PosInf world0 = (Inl OverflowError, world0)
   \<and> set_numeric_value failing_transport ''alarm'' NegInf world0 = (Inl OverflowError, world0)"
proof -
  note th = alarm_write_key_error [of failing_transport "Some True" world0 "Finite 0"]
  have a: "\<bar>0::rat\<bar> < 2 ^ 1000"
    by simp
  from th a show ?thesis
    by blast
qed

theorem alarm_write_nan_counterexample:
  "set_numeric_value failing_transport ''alarm'' NaN world0 = (Inl ValueError, world0)"
  by (simp add: set_numeric_value_def mapping_keys convert_to_ecoforest_int_def)

end
